theory Spec2Isabelle
  imports Main "HOL-Library.AList"
begin

unbundle bit_operations_syntax

section \<open>Exceptions\<close>

text \<open>
  The exceptions the modelled functions raise. A function that may raise returns
  \<open>error + 'a\<close>, with \<open>Inl\<close> for the exception.
\<close>

datatype error =
    ValueError | AttributeError | KeyError | TypeError | AssertionError
  | Conflict
  | FileNotFoundError
  | InvalidOperation | NotFound | UsageError | ClickException | SubprocessError
  | KeyboardInterrupt

section \<open>Deltas (kart/diff_structs.py)\<close>

text \<open>
  A value of a \<open>KeyValue\<close> is either a plain value or a callable that produces the value
  when it is first needed.
\<close>

datatype 'v lazy_value = Plain 'v | Callable "unit \<Rightarrow> 'v"

record ('k, 'v) KeyValue =
  key :: 'k
  kv_value :: "'v lazy_value"

text \<open>
  \<open>get_lazy_value\<close>: a plain value is returned as it is, a callable is called. The cache
  of the source only avoids a second call; the value is the same.
\<close>

definition get_lazy_value :: "('k, 'v) KeyValue \<Rightarrow> 'v" where
  "get_lazy_value kv = (case kv_value kv of Plain v \<Rightarrow> v | Callable f \<Rightarrow> f ())"

text \<open>Delta flags.\<close>

definition WORKING_COPY_EDIT :: int where "WORKING_COPY_EDIT = 1"
definition BINARY_FILE :: int where "BINARY_FILE = 2"

datatype delta_type = Insert | Update | Delete

record ('k, 'v) Delta =
  old :: "('k, 'v) KeyValue option"
  new :: "('k, 'v) KeyValue option"
  dtype :: delta_type
  flags :: int

text \<open>
  \<open>Delta.__init__\<close>: both sides absent raises \<open>ValueError\<close>; the type is derived from
  which side is absent; the flags start at 0. (\<open>KeyValue.of\<close> turns a tuple into a
  \<open>KeyValue\<close>; here both sides are already \<open>KeyValue option\<close>.)
\<close>

definition Delta_init ::
  "('k, 'v) KeyValue option \<Rightarrow> ('k, 'v) KeyValue option \<Rightarrow> error + ('k, 'v) Delta" where
  "Delta_init x y =
     (if x = None \<and> y = None then Inl ValueError
      else Inr \<lparr>old = x, new = y,
                dtype = (if x = None then Insert else if y = None then Delete else Update),
                flags = 0\<rparr>)"

definition Delta_insert :: "('k, 'v) KeyValue option \<Rightarrow> error + ('k, 'v) Delta" where
  "Delta_insert y = Delta_init None y"

definition Delta_update ::
  "('k, 'v) KeyValue option \<Rightarrow> ('k, 'v) KeyValue option \<Rightarrow> error + ('k, 'v) Delta" where
  "Delta_update x y = Delta_init x y"

definition Delta_delete :: "('k, 'v) KeyValue option \<Rightarrow> error + ('k, 'v) Delta" where
  "Delta_delete x = Delta_init x None"

text \<open>
  \<open>Delta.maybe_update\<close>: compares the two (lazily evaluated) values, not the keys; equal
  values give \<open>None\<close>. Calling \<open>get_lazy_value\<close> on an absent side is an
  \<open>AttributeError\<close>.
\<close>

definition maybe_update ::
  "('k, 'v) KeyValue option \<Rightarrow> ('k, 'v) KeyValue option \<Rightarrow> error + ('k, 'v) Delta option" where
  "maybe_update x y =
     (case (x, y) of
        (Some a, Some b) \<Rightarrow>
          (if get_lazy_value a \<noteq> get_lazy_value b
           then (case Delta_init x y of Inl e \<Rightarrow> Inl e | Inr d \<Rightarrow> Inr (Some d))
           else Inr None)
      | _ \<Rightarrow> Inl AttributeError)"

text \<open>The properties \<open>old_key\<close>, \<open>new_key\<close>, \<open>old_value\<close>, \<open>new_value\<close> and \<open>is_rename\<close>.\<close>

definition old_key :: "('k, 'v) Delta \<Rightarrow> 'k option" where
  "old_key d = (case old d of Some x \<Rightarrow> Some (key x) | None \<Rightarrow> None)"

definition new_key :: "('k, 'v) Delta \<Rightarrow> 'k option" where
  "new_key d = (case new d of Some x \<Rightarrow> Some (key x) | None \<Rightarrow> None)"

definition old_value :: "('k, 'v) Delta \<Rightarrow> 'v option" where
  "old_value d = (case old d of Some x \<Rightarrow> Some (get_lazy_value x) | None \<Rightarrow> None)"

definition new_value :: "('k, 'v) Delta \<Rightarrow> 'v option" where
  "new_value d = (case new d of Some x \<Rightarrow> Some (get_lazy_value x) | None \<Rightarrow> None)"

definition is_rename :: "('k, 'v) Delta \<Rightarrow> bool" where
  "is_rename d = (dtype d = Update \<and> old_key d \<noteq> new_key d)"

text \<open>\<open>Delta.__invert__\<close>: a new delta built from the swapped sides.\<close>

definition invert :: "('k, 'v) Delta \<Rightarrow> error + ('k, 'v) Delta" where
  "invert d = Delta_init (new d) (old d)"

text \<open>
  The equality the dataclass generates for \<open>Delta\<close> compares its declared fields,
  \<open>old\<close> and \<open>new\<close>; \<open>type\<close> and \<open>flags\<close> are plain attributes set by
  \<open>__init__\<close> and take no part in it.
\<close>

definition Delta_eq :: "('k, 'v) Delta \<Rightarrow> ('k, 'v) Delta \<Rightarrow> bool" where
  "Delta_eq a b = (old a = old b \<and> new a = new b)"

text \<open>
  \<open>Delta.__add__\<close>. The first part computes \<open>result\<close> (or raises) by the types of the
  two deltas; the last two lines of the source set the flags of a result that is not
  \<open>None\<close>.
\<close>

definition add_result ::
  "('k, 'v) Delta \<Rightarrow> ('k, 'v) Delta \<Rightarrow> error + ('k, 'v) Delta option" where
  "add_result self other =
     (case dtype self of
        Insert \<Rightarrow>
          (case dtype other of
             Insert \<Rightarrow> Inl Conflict
           | Update \<Rightarrow> (case Delta_insert (new other) of Inl e \<Rightarrow> Inl e | Inr d \<Rightarrow> Inr (Some d))
           | Delete \<Rightarrow> Inr None)
      | Update \<Rightarrow>
          (case dtype other of
             Insert \<Rightarrow> Inl Conflict
           | Update \<Rightarrow> maybe_update (old self) (new other)
           | Delete \<Rightarrow> (case Delta_delete (old self) of Inl e \<Rightarrow> Inl e | Inr d \<Rightarrow> Inr (Some d)))
      | Delete \<Rightarrow>
          (case dtype other of
             Insert \<Rightarrow> maybe_update (old self) (new other)
           | _ \<Rightarrow> Inl Conflict))"

definition add :: "('k, 'v) Delta \<Rightarrow> ('k, 'v) Delta \<Rightarrow> error + ('k, 'v) Delta option" where
  "add self other =
     (case add_result self other of
        Inl e \<Rightarrow> Inl e
      | Inr None \<Rightarrow> Inr None
      | Inr (Some result) \<Rightarrow> Inr (Some (result\<lparr>flags := flags self OR flags other\<rparr>)))"

text \<open>
  The deltas that exist at run time: built by \<open>Delta.__init__\<close> (so not empty, and with
  the type it derives), with any flags assigned afterwards.
\<close>

definition is_Delta :: "('k, 'v) Delta \<Rightarrow> bool" where
  "is_Delta d = (Delta_init (old d) (new d) = Inr (d\<lparr>flags := 0\<rparr>))"

section \<open>Repository state (kart/repo.py)\<close>

datatype KartRepoState = NORMAL | MERGING

definition ALL_STATES :: "KartRepoState list" where
  "ALL_STATES = [NORMAL, MERGING]"

text \<open>\<open>KartRepoFiles\<close>: the names of the merge-state files in the gitdir.\<close>

definition MERGE_HEAD :: string where "MERGE_HEAD = ''MERGE_HEAD''"
definition MERGE_MSG :: string where "MERGE_MSG = ''MERGE_MSG''"
definition MERGE_BRANCH :: string where "MERGE_BRANCH = ''MERGE_BRANCH''"
definition MERGED_INDEX :: string where "MERGED_INDEX = ''MERGED_INDEX''"
definition MERGED_TREE :: string where "MERGED_TREE = ''MERGED_TREE''"

text \<open>
  Modelled from the spec: \<open>ALL_MERGE_FILES\<close> (kart/merge_util.py is not among the
  sources). The spec lists the merge-state files as \<open>MERGE_HEAD\<close>, \<open>MERGED_INDEX\<close>,
  \<open>MERGED_TREE\<close>, \<open>MERGE_MSG\<close>, \<open>MERGE_BRANCH\<close>.
\<close>

definition ALL_MERGE_FILES :: "string list" where
  "ALL_MERGE_FILES = [MERGE_HEAD, MERGED_INDEX, MERGED_TREE, MERGE_MSG, MERGE_BRANCH]"

type_synonym oid = string

text \<open>A commit as \<open>create_commit\<close> writes it.\<close>

record Commit =
  author :: string
  committer :: string
  message :: string
  tree :: oid
  parent_ids :: "oid list"

text \<open>
  The repository, as far as the merge commands read and write it: the files of the gitdir
  (name to text), the name of the reference HEAD points to, the references, the commits
  created so far (oldest first), and the working copy (the commit it was last reset to,
  and whether it has been modified since).
\<close>

record KartRepo =
  gitdir_files :: "string \<rightharpoonup> string"
  head_name :: string
  references :: "string \<rightharpoonup> Commit"
  commits :: "Commit list"
  working_copy_commit :: "Commit option"
  working_copy_modified :: bool

definition gitdir_file_exists :: "KartRepo \<Rightarrow> string \<Rightarrow> bool" where
  "gitdir_file_exists repo rel_path = (gitdir_files repo rel_path \<noteq> None)"

text \<open>\<open>KartRepo.state\<close>.\<close>

definition state :: "KartRepo \<Rightarrow> error + KartRepoState" where
  "state repo =
     (let merge_head = gitdir_file_exists repo MERGE_HEAD;
          merged_index = gitdir_file_exists repo MERGED_INDEX
      in if merge_head \<and> \<not> merged_index then Inl NotFound
         else Inr (if merge_head then MERGING else NORMAL))"

text \<open>\<open>KartRepo.read_gitdir_file\<close> (without \<open>strip\<close>) and \<open>KartRepo.remove_gitdir_file\<close>
  (with its default \<open>missing_ok=True\<close>).\<close>

definition read_gitdir_file :: "KartRepo \<Rightarrow> string \<Rightarrow> bool \<Rightarrow> error + string option" where
  "read_gitdir_file repo rel_path missing_ok =
     (case gitdir_files repo rel_path of
        None \<Rightarrow> if missing_ok then Inr None else Inl FileNotFoundError
      | Some text \<Rightarrow> Inr (Some text))"

definition remove_gitdir_file :: "string \<Rightarrow> KartRepo \<Rightarrow> KartRepo" where
  "remove_gitdir_file rel_path repo =
     (if \<not> gitdir_file_exists repo rel_path then repo
      else repo\<lparr>gitdir_files := (gitdir_files repo)(rel_path := None)\<rparr>)"

text \<open>
  \<open>create_commit\<close> (pygit2): writes the commit and, when a reference name is given, points
  that reference at it. A commit is identified by its content.
\<close>

definition create_commit ::
  "string option \<Rightarrow> string \<Rightarrow> string \<Rightarrow> string \<Rightarrow> oid \<Rightarrow> oid list \<Rightarrow> KartRepo \<Rightarrow> Commit \<times> KartRepo" where
  "create_commit ref_name a c msg tree_id parents repo =
     (let commit = \<lparr>author = a, committer = c, message = msg, tree = tree_id,
                     parent_ids = parents\<rparr>;
          repo' = repo\<lparr>commits := commits repo @ [commit]\<rparr>
      in (commit, case ref_name of
                    None \<Rightarrow> repo'
                  | Some r \<Rightarrow> repo'\<lparr>references := (references repo')(r \<mapsto> commit)\<rparr>))"

text \<open>
  Modelled from the spec: \<open>WorkingCopy.reset_to_head\<close> (kart/working_copy.py is not among
  the sources) resets the working copy to HEAD, discarding modifications.
\<close>

definition reset_to_head :: "KartRepo \<Rightarrow> KartRepo" where
  "reset_to_head repo =
     repo\<lparr>working_copy_commit := references repo (head_name repo),
          working_copy_modified := False\<rparr>"

section \<open>Merge state machine (kart/merge.py)\<close>

text \<open>
  What \<open>MergedIndex.read_from_repo\<close> and \<open>MergeContext.read_from_repo\<close> return (both
  classes live in kart/merge_util.py, not among the sources): of the merged index, the
  unresolved conflicts (by label) and the tree \<open>write_resolved_tree\<close> writes; of the merge
  context, the commit ids of the three versions and the message \<open>get_message\<close> builds.
\<close>

record MergedIndex =
  unresolved_conflicts :: "string list"
  resolved_tree :: oid

record MergeContext =
  ancestor :: oid
  ours :: oid
  theirs :: oid
  get_message :: string

text \<open>
  The functions of the repository that the merge commands call and that are not among the
  sources are parameters of the model:
  \<^item> \<open>get_repo\<close>: \<open>ctx.obj.get_repo(allowed_states=...)\<close>, which returns the repository or
    raises;
  \<^item> \<open>read_merged_index\<close>, \<open>read_merge_context\<close>: the two \<open>read_from_repo\<close>;
  \<^item> \<open>check_git_user\<close>: raises when no git user is configured (\<open>Some\<close> the exception);
  \<^item> \<open>default_signature\<close>: \<open>repo.default_signature\<close>;
  \<^item> \<open>edit_commit_message\<close>: \<open>commit.get_commit_message\<close>, the message the user leaves in
    the editor for a given draft (\<open>None\<close> or empty when the user leaves none).
\<close>

record merge_env =
  get_repo :: "KartRepoState list \<Rightarrow> KartRepo \<Rightarrow> error + KartRepo"
  read_merged_index :: "KartRepo \<Rightarrow> MergedIndex"
  read_merge_context :: "KartRepo \<Rightarrow> MergeContext"
  check_git_user :: "KartRepo \<Rightarrow> error option"
  default_signature :: "KartRepo \<Rightarrow> string"
  edit_commit_message :: "KartRepo \<Rightarrow> oid \<Rightarrow> string \<Rightarrow> string option"

text \<open>\<open>ctx.params\<close>: the options \<open>--message\<close> and \<open>--no-editor\<close>.\<close>

record merge_params =
  param_message :: "string option"
  param_launch_editor :: bool

text \<open>Python's truth value of an optional string: \<open>None\<close> and the empty string are false.\<close>

definition truthy :: "string option \<Rightarrow> bool" where
  "truthy m = (m \<noteq> None \<and> m \<noteq> Some [])"

text \<open>\<open>get_commit_message\<close> of kart/merge.py.\<close>

definition get_commit_message ::
  "merge_env \<Rightarrow> MergeContext \<Rightarrow> oid \<Rightarrow> KartRepo \<Rightarrow> bool \<Rightarrow> bool \<Rightarrow> error + string" where
  "get_commit_message env merge_context merge_tree_id repo launch_editor read_msg_file =
     (case (if read_msg_file then read_gitdir_file repo MERGE_MSG True else Inr None) of
        Inl e \<Rightarrow> Inl e
      | Inr m0 \<Rightarrow>
          (let m1 = (if \<not> truthy m0 then Some (get_message merge_context) else m0);
               m2 = (if launch_editor
                     then edit_commit_message env repo merge_tree_id (the m1) else m1)
           in if \<not> truthy m2 then Inl UsageError else Inr (the m2)))"

text \<open>
  \<open>abort_merging_state\<close>. The result is the exception raised (or none) together with the
  repository as the command leaves it.
\<close>

definition abort_merging_state :: "merge_env \<Rightarrow> KartRepo \<Rightarrow> (error + unit) \<times> KartRepo" where
  "abort_merging_state env repo0 =
     (case get_repo env ALL_STATES repo0 of
        Inl e \<Rightarrow> (Inl e, repo0)
      | Inr repo \<Rightarrow>
          (let is_ongoing_merge = gitdir_file_exists repo MERGE_HEAD;
               repo1 = fold remove_gitdir_file ALL_MERGE_FILES repo
           in case state repo1 of
                Inl e \<Rightarrow> (Inl e, repo1)
              | Inr s \<Rightarrow>
                  if \<not> (s \<noteq> MERGING) then (Inl AssertionError, repo1)
                  else if \<not> is_ongoing_merge then (Inl InvalidOperation, repo1)
                  else (Inr (), reset_to_head repo1)))"

text \<open>
  The commit message of \<open>complete_merging_state\<close>: the \<open>--message\<close> option when it
  is given and not empty, otherwise \<open>get_commit_message\<close> reading the \<open>MERGE_MSG\<close>
  file.
\<close>

definition merge_commit_message ::
  "merge_env \<Rightarrow> merge_params \<Rightarrow> MergeContext \<Rightarrow> oid \<Rightarrow> KartRepo \<Rightarrow> error + string" where
  "merge_commit_message env params merge_context merge_tree_id repo =
     (if \<not> truthy (param_message params)
      then get_commit_message env merge_context merge_tree_id repo
             (param_launch_editor params) True
      else Inr (the (param_message params)))"

text \<open>
  \<open>complete_merging_state\<close>. What it prints and the \<open>gc\<close> it runs are left out: they
  do not change the state modelled here.
\<close>

definition complete_merging_state ::
  "merge_env \<Rightarrow> merge_params \<Rightarrow> KartRepo \<Rightarrow> (error + unit) \<times> KartRepo" where
  "complete_merging_state env params repo0 =
     (case get_repo env [MERGING] repo0 of
        Inl e \<Rightarrow> (Inl e, repo0)
      | Inr repo \<Rightarrow>
          (let merged_index = read_merged_index env repo
           in if unresolved_conflicts merged_index \<noteq> [] then (Inl InvalidOperation, repo)
              else case check_git_user env repo of
                Some e \<Rightarrow> (Inl e, repo)
              | None \<Rightarrow>
                  (let merge_context = read_merge_context env repo;
                       merge_tree_id = resolved_tree merged_index
                   in case merge_commit_message env params merge_context merge_tree_id repo of
                        Inl e \<Rightarrow> (Inl e, repo)
                      | Inr msg \<Rightarrow>
                          (let user = default_signature env repo;
                               (merge_commit_id, repo1) =
                                  create_commit (Some (head_name repo)) user user msg merge_tree_id
                                    [ours merge_context, theirs merge_context] repo;
                               repo2 = fold remove_gitdir_file ALL_MERGE_FILES repo1
                           in case state repo2 of
                                Inl e \<Rightarrow> (Inl e, repo2)
                              | Inr s \<Rightarrow>
                                  if \<not> (s \<noteq> MERGING) then (Inl AssertionError, repo2)
                                  else (Inr (), reset_to_head repo2)))))"

section \<open>Fast import (kart/fast_import.py)\<close>

subsection \<open>Comparing imported features against old features\<close>

text \<open>
  The schema class is not among the sources: schemas are values of any type, and
  \<open>Schema.diff_type_counts\<close> is a parameter that returns the four counts.
\<close>

record type_counts =
  inserts :: nat
  updates :: nat
  deletes :: nat
  pk_updates :: nat

record 's Dataset =
  path :: string
  schema :: 's

text \<open>
  \<open>repo.walk(from_commit.id)\<close> through \<open>_safe_walk_repo\<close>: the commits it yields, newest
  first, each given by its datasets (\<open>repo.datasets(commit.oid)\<close>, by path), and whether
  the walk then hits a commit that is not present (\<open>_CommitMissing\<close>).
\<close>

record 's repo_walk =
  walk_commits :: "(string \<rightharpoonup> 's Dataset) list"
  commit_missing :: bool

text \<open>The loop over the walk, with its four exits.\<close>

fun walk_log ::
  "('s \<Rightarrow> 's \<Rightarrow> type_counts) \<Rightarrow> 's \<Rightarrow> string \<Rightarrow> (string \<rightharpoonup> 's Dataset) list \<Rightarrow> bool \<Rightarrow> bool"
where
  "walk_log diff_type_counts source_schema replacing_path [] missing =
     (if missing then True else False)"
| "walk_log diff_type_counts source_schema replacing_path (datasets # rest) missing =
     (case datasets replacing_path of
        None \<Rightarrow> False
      | Some old_dataset \<Rightarrow>
          if schema old_dataset \<noteq> source_schema then
            (let types = diff_type_counts (schema old_dataset) source_schema
             in if pk_updates types \<noteq> 0 then False
                else if inserts types \<noteq> 0 \<or> deletes types \<noteq> 0 then True
                else walk_log diff_type_counts source_schema replacing_path rest missing)
          else walk_log diff_type_counts source_schema replacing_path rest missing)"

definition should_compare_imported_features_against_old_features ::
  "('s \<Rightarrow> 's \<Rightarrow> type_counts) \<Rightarrow> 's repo_walk \<Rightarrow> 's \<Rightarrow> 's Dataset option \<Rightarrow> bool" where
  "should_compare_imported_features_against_old_features diff_type_counts walk source_schema
       replacing_dataset =
     (case replacing_dataset of
        None \<Rightarrow> False
      | Some rd \<Rightarrow>
          (let types = diff_type_counts (schema rd) source_schema
           in if schema rd \<noteq> source_schema \<and> pk_updates types \<noteq> 0 then False
              else if schema rd \<noteq> source_schema \<and> (inserts types \<noteq> 0 \<or> deletes types \<noteq> 0)
              then True
              else walk_log diff_type_counts source_schema (path rd) (walk_commits walk)
                     (commit_missing walk)))"

text \<open>
  The words of the claim about one version of the dataset, compared with the schema being
  imported: a primary-key change, an added or dropped column without a primary-key change,
  and neither of the two.
\<close>

definition pk_change :: "('s \<Rightarrow> 's \<Rightarrow> type_counts) \<Rightarrow> 's \<Rightarrow> 's Dataset \<Rightarrow> bool" where
  "pk_change diff_type_counts source_schema d =
     (schema d \<noteq> source_schema \<and> pk_updates (diff_type_counts (schema d) source_schema) \<noteq> 0)"

definition add_or_drop :: "('s \<Rightarrow> 's \<Rightarrow> type_counts) \<Rightarrow> 's \<Rightarrow> 's Dataset \<Rightarrow> bool" where
  "add_or_drop diff_type_counts source_schema d =
     (schema d \<noteq> source_schema \<and>
      pk_updates (diff_type_counts (schema d) source_schema) = 0 \<and>
      (inserts (diff_type_counts (schema d) source_schema) \<noteq> 0 \<or>
       deletes (diff_type_counts (schema d) source_schema) \<noteq> 0))"

definition no_schema_change :: "('s \<Rightarrow> 's \<Rightarrow> type_counts) \<Rightarrow> 's \<Rightarrow> 's Dataset \<Rightarrow> bool" where
  "no_schema_change diff_type_counts source_schema d =
     (\<not> pk_change diff_type_counts source_schema d \<and>
      \<not> add_or_drop diff_type_counts source_schema d)"

text \<open>The same three, for the dataset at a path in a commit of the walk.\<close>

definition at_path ::
  "('s Dataset \<Rightarrow> bool) \<Rightarrow> string \<Rightarrow> (string \<rightharpoonup> 's Dataset) \<Rightarrow> bool" where
  "at_path P p datasets = (case datasets p of None \<Rightarrow> False | Some d \<Rightarrow> P d)"

subsection \<open>The import stream\<close>

text \<open>What is written to the stdin of git fast-import, one command at a time.\<close>

datatype command =
    Header string
  | M_inline string string
  | M_existing string string
  | D string

text \<open>\<open>write_blob_to_stream\<close>, \<open>copy_existing_blob_to_stream\<close>, \<open>write_blobs_to_stream\<close>.\<close>

definition write_blob_to_stream :: "command list \<Rightarrow> string \<Rightarrow> string \<Rightarrow> command list" where
  "write_blob_to_stream stream blob_path blob_data = stream @ [M_inline blob_path blob_data]"

definition copy_existing_blob_to_stream ::
  "command list \<Rightarrow> string \<Rightarrow> string \<Rightarrow> command list" where
  "copy_existing_blob_to_stream stream blob_path blob_sha = stream @ [M_existing blob_sha blob_path]"

definition write_blobs_to_stream ::
  "command list \<Rightarrow> (string \<times> string) list \<Rightarrow> command list" where
  "write_blobs_to_stream stream blobs =
     fold (\<lambda>(blob_path, blob_data) s. write_blob_to_stream s blob_path blob_data) blobs stream"

text \<open>
  \<open>feature_blob_iter\<close> is a lazy iterator. Advancing it yields the next feature blob
  (path and data, or path and the id of an existing blob); when \<open>replace_ids\<close> is given,
  advancing it also pulls primary keys from \<open>_ids()\<close>, which writes a \<open>D\<close> line for each
  key it hands out. The iterator is the list of these events in order.
\<close>

datatype iter_event = Id_deleted string | Feature_blob string string

text \<open>
  An import source, as far as \<open>_import_single_source\<close> uses it: what
  \<open>fast_import_clear_tree\<close> writes for it, the events of its feature iterator, the
  \<open>feature_blobs_already_written\<close> attribute, and its meta blobs.
\<close>

record import_source =
  clear_tree_commands :: "command list"
  feature_blob_iter :: "iter_event list"
  feature_blobs_already_written :: bool
  meta_blobs :: "(string \<times> string) list"

text \<open>
  The loop \<open>for i, (feature_path, blob_data) in enumerate(feature_blob_iter)\<close>: each blob
  is written, then the loop breaks when \<open>limit is not None and i == limit - 1\<close>.
\<close>

fun feature_loop ::
  "int option \<Rightarrow> bool \<Rightarrow> int \<Rightarrow> iter_event list \<Rightarrow> command list \<Rightarrow> command list" where
  "feature_loop limit already_written i [] stream = stream"
| "feature_loop limit already_written i (Id_deleted p # rest) stream =
     feature_loop limit already_written i rest (stream @ [D p])"
| "feature_loop limit already_written i (Feature_blob feature_path blob_data # rest) stream =
     (let stream' = (if already_written
                     then copy_existing_blob_to_stream stream feature_path blob_data
                     else write_blob_to_stream stream feature_path blob_data)
      in if limit \<noteq> None \<and> i = the limit - 1 then stream'
         else feature_loop limit already_written (i + 1) rest stream')"

definition import_single_source ::
  "int option \<Rightarrow> import_source \<Rightarrow> command list \<Rightarrow> command list" where
  "import_single_source limit source stream =
     (let s1 = stream @ clear_tree_commands source;
          s2 = feature_loop limit (feature_blobs_already_written source) 0
                 (feature_blob_iter source) s1
      in write_blobs_to_stream s2 (meta_blobs source))"

text \<open>
  The body of the \<open>with git_fast_import(...)\<close> block of \<open>fast_import_tables\<close>: the
  header, the extra blobs (a \<open>ValueError\<close> when one of them is already in the tree the
  import starts from, unless everything is replaced), then each source in turn.
  \<open>from_tree\<close> is given by its paths.
\<close>

definition import_stream ::
  "string \<Rightarrow> (string \<times> string) list \<Rightarrow> bool \<Rightarrow> string list \<Rightarrow> int option \<Rightarrow> import_source list
     \<Rightarrow> error + command list" where
  "import_stream header extra_blobs replace_all from_tree limit sources =
     (if \<not> replace_all \<and> list_ex (\<lambda>(blob_path, blob_data). blob_path \<in> set from_tree) extra_blobs
      then Inl ValueError
      else Inr (fold (import_single_source limit) sources
                  (write_blobs_to_stream [Header header] extra_blobs)))"

text \<open>The feature blobs among the commands written, and the blobs an iterator yields.\<close>

fun is_blob_write :: "command \<Rightarrow> bool" where
  "is_blob_write (M_inline p d) = True"
| "is_blob_write (M_existing s p) = True"
| "is_blob_write _ = False"

fun yielded :: "iter_event list \<Rightarrow> (string \<times> string) list" where
  "yielded [] = []"
| "yielded (Id_deleted p # rest) = yielded rest"
| "yielded (Feature_blob p d # rest) = (p, d) # yielded rest"

definition feature_command :: "bool \<Rightarrow> string \<times> string \<Rightarrow> command" where
  "feature_command already_written f =
     (if already_written then M_existing (snd f) (fst f) else M_inline (fst f) (snd f))"

text \<open>
  What the limit asks of the loop: the iterator is advanced up to and including its
  \<open>n\<close>-th feature blob and no further, and what each of these events writes is all that
  is written.
\<close>

fun upto_nth_blob :: "nat \<Rightarrow> iter_event list \<Rightarrow> iter_event list" where
  "upto_nth_blob 0 evs = []"
| "upto_nth_blob (Suc n) [] = []"
| "upto_nth_blob (Suc n) (Id_deleted p # rest) = Id_deleted p # upto_nth_blob (Suc n) rest"
| "upto_nth_blob (Suc n) (Feature_blob p d # rest) = Feature_blob p d # upto_nth_blob n rest"

fun event_command :: "bool \<Rightarrow> iter_event \<Rightarrow> command" where
  "event_command already_written (Id_deleted p) = D p"
| "event_command already_written (Feature_blob p d) = feature_command already_written (p, d)"

subsection \<open>The temporary import reference\<close>

text \<open>
  What happens around one run of git fast-import, none of it decided by the importing
  function itself:
  \<^item> \<open>uuid4\<close>: the text of the fresh uuid;
  \<^item> \<open>head_branch\<close>: \<open>repo.head_branch\<close>, \<open>None\<close> when HEAD is detached;
  \<^item> \<open>detached_commit\<close>: the commit HEAD points to when it is detached;
  \<^item> \<open>generate_header_error\<close>: an exception raised before the stream is opened;
  \<^item> \<open>stream_error\<close>: an exception that leaves the \<open>with git_fast_import(...)\<close> block:
    raised by the body, an interruption, or the \<open>SubprocessError\<close> for a non-zero exit;
  \<^item> \<open>ref_written_on_error\<close>: whether git fast-import had written the reference its
    header names when the block was left by an exception;
  \<^item> \<open>imported_commit\<close>: the commit git fast-import writes to that reference when the
    stream ends well;
  \<^item> \<open>create_commit_error\<close>: an exception raised after the stream, before the commit on
    the branch is created;
  \<^item> \<open>checkout_error\<close>: an exception raised by the steps after the clean-up (tile
    import only).
\<close>

record import_run =
  uuid4 :: string
  head_branch :: "string option"
  detached_commit :: Commit
  generate_header_error :: "error option"
  stream_error :: "error option"
  ref_written_on_error :: bool
  imported_commit :: Commit
  create_commit_error :: "error option"
  checkout_error :: "error option"

definition kart_import_ref :: "import_run \<Rightarrow> string" where
  "kart_import_ref run = ''refs/kart-import/'' @ uuid4 run"

definition references_delete :: "string \<Rightarrow> KartRepo \<Rightarrow> KartRepo" where
  "references_delete r repo = repo\<lparr>references := (references repo)(r := None)\<rparr>"

text \<open>
  git fast-import on a header that commits to \<open>commit_ref\<close>: the exception that leaves
  the block, if any, and the repository afterwards.
\<close>

definition git_fast_import :: "import_run \<Rightarrow> string \<Rightarrow> KartRepo \<Rightarrow> error option \<times> KartRepo" where
  "git_fast_import run commit_ref repo =
     (let written = repo\<lparr>references := (references repo)(commit_ref \<mapsto> imported_commit run),
                         commits := commits repo @ [imported_commit run]\<rparr>
      in case stream_error run of
           Some e \<Rightarrow> (Some e, if ref_written_on_error run then written else repo)
         | None \<Rightarrow> (None, written))"

text \<open>
  The \<open>try\<close> block of \<open>fast_import_tables\<close>, which is entered after the arguments have
  been checked. \<open>header\<close> is \<open>None\<close> when the caller gives no header, and otherwise
  the reference the caller's header commits to.
\<close>

definition fast_import_tables_try ::
  "import_run \<Rightarrow> string option \<Rightarrow> bool \<Rightarrow> oid \<Rightarrow> KartRepo \<Rightarrow> (error + unit) \<times> KartRepo" where
  "fast_import_tables_try run header allow_empty from_tree repo =
     (let import_ref = (if header = None then Some (kart_import_ref run) else None)
      in case (if header = None then generate_header_error run else None) of
           Some e \<Rightarrow> (Inl e, repo)
         | None \<Rightarrow>
             (case git_fast_import run (case header of None \<Rightarrow> kart_import_ref run | Some r \<Rightarrow> r)
                     repo of
                (Some e, repo1) \<Rightarrow> (Inl e, repo1)
              | (None, repo1) \<Rightarrow>
                  (case import_ref of
                     None \<Rightarrow> (Inr (), repo1)
                   | Some r \<Rightarrow>
                       (case references repo1 r of
                          None \<Rightarrow> (Inl KeyError, repo1)
                        | Some existing_commit \<Rightarrow>
                            if \<not> allow_empty \<and> tree existing_commit = from_tree
                            then (Inl NotFound, repo1)
                            else (case create_commit_error run of
                                    Some e \<Rightarrow> (Inl e, repo1)
                                  | None \<Rightarrow>
                                      (Inr (),
                                       snd (create_commit
                                              (Some (case head_branch run of
                                                       None \<Rightarrow> ''HEAD'' | Some b \<Rightarrow> b))
                                              (author existing_commit) (committer existing_commit)
                                              (message existing_commit) (tree existing_commit)
                                              (parent_ids existing_commit) repo1)))))))"

text \<open>\<open>fast_import_tables\<close>: the \<open>try\<close> block, then the \<open>finally\<close> block on every exit.\<close>

definition fast_import_tables ::
  "import_run \<Rightarrow> string option \<Rightarrow> bool \<Rightarrow> oid \<Rightarrow> KartRepo \<Rightarrow> (error + unit) \<times> KartRepo" where
  "fast_import_tables run header allow_empty from_tree repo =
     (let import_ref = (if header = None then Some (kart_import_ref run) else None);
          (result, repo1) = fast_import_tables_try run header allow_empty from_tree repo
      in (result,
          case import_ref of
            None \<Rightarrow> repo1
          | Some r \<Rightarrow> if r \<in> dom (references repo1) then references_delete r repo1 else repo1))"

section \<open>Tile import (kart/tile/importer.py)\<close>

text \<open>The options of a tile import that the steps around the stream read.\<close>

record tile_import =
  amend :: bool
  tile_allow_empty :: bool
  tile_message :: string
  committer_signature :: string

text \<open>
  \<open>repo.head_commit\<close>: the commit at HEAD, that is the commit of the head branch (none
  while the branch is unborn), or the commit HEAD points to when it is detached.
\<close>

definition head_commit :: "import_run \<Rightarrow> KartRepo \<Rightarrow> Commit option" where
  "head_commit run repo =
     (case head_branch run of
        None \<Rightarrow> Some (detached_commit run)
      | Some b \<Rightarrow> references repo b)"

text \<open>
  The \<open>try\<close> block of \<open>TileImporter.import_tiles\<close>, entered after the stream has ended
  well: the commit to put on the head branch is made (amend) or taken from the temporary
  reference, and the head branch is created or moved (with a detached HEAD there is no
  branch to move, and the step fails).
\<close>

definition import_tiles_try ::
  "import_run \<Rightarrow> tile_import \<Rightarrow> KartRepo \<Rightarrow> (error + unit) \<times> KartRepo" where
  "import_tiles_try run opts repo =
     (case references repo (kart_import_ref run) of
        None \<Rightarrow> (Inl KeyError, repo)
      | Some new_commit \<Rightarrow>
          (case (if amend opts then
                   (case create_commit_error run of
                      Some e \<Rightarrow> Inl e
                    | None \<Rightarrow>
                        (case head_commit run repo of
                           None \<Rightarrow> Inl AttributeError
                         | Some hc \<Rightarrow>
                             Inr (create_commit None (author hc) (committer_signature opts)
                                    (tile_message opts) (tree new_commit) (parent_ids hc) repo)))
                 else
                   (if \<not> tile_allow_empty opts \<and>
                       (case head_commit run repo of
                          None \<Rightarrow> False | Some hc \<Rightarrow> tree new_commit = tree hc)
                    then Inl NotFound else Inr (new_commit, repo))) of
             Inl e \<Rightarrow> (Inl e, repo)
           | Inr (new_commit_oid, repo1) \<Rightarrow>
               (case head_branch run of
                  None \<Rightarrow> (Inl TypeError, repo1)
                | Some b \<Rightarrow>
                    (Inr (), repo1\<lparr>references := (references repo1)(b \<mapsto> new_commit_oid)\<rparr>))))"

text \<open>
  \<open>TileImporter.import_tiles\<close> from the choice of the temporary reference on. The stream
  is written before the \<open>try\<close> block; the \<open>finally\<close> block deletes the temporary
  reference (a \<open>KeyError\<close> when it does not exist); the check-out steps follow.
\<close>

definition import_tiles ::
  "import_run \<Rightarrow> tile_import \<Rightarrow> KartRepo \<Rightarrow> (error + unit) \<times> KartRepo" where
  "import_tiles run opts repo =
     (if amend opts \<and> head_commit run repo = None then (Inl InvalidOperation, repo)
      else case generate_header_error run of
        Some e \<Rightarrow> (Inl e, repo)
      | None \<Rightarrow>
          (case git_fast_import run (kart_import_ref run) repo of
             (Some e, repo1) \<Rightarrow> (Inl e, repo1)
           | (None, repo1) \<Rightarrow>
               (let (result, repo2) = import_tiles_try run opts repo1
                in if kart_import_ref run \<notin> dom (references repo2) then (Inl KeyError, repo2)
                   else let repo3 = references_delete (kart_import_ref run) repo2
                        in case result of
                             Inl e \<Rightarrow> (Inl e, repo3)
                           | Inr u \<Rightarrow>
                               (case checkout_error run of
                                  Some e \<Rightarrow> (Inl e, repo3)
                                | None \<Rightarrow> (Inr (), repo3)))))"

section \<open>Key filters (kart/key_filters.py)\<close>

subsection \<open>UserStringKeyFilter\<close>

text \<open>
  A key handed to a \<open>UserStringKeyFilter\<close> is a single value or a tuple or list of
  values; each value is given here by the text \<open>str()\<close> makes of it.
\<close>

datatype filter_key = Single string | Parts "string list"

fun join :: "string \<Rightarrow> string list \<Rightarrow> string" where
  "join sep [] = []"
| "join sep [x] = x"
| "join sep (x # y # ys) = x @ sep @ join sep (y # ys)"

record UserStringKeyFilter =
  elements :: "string set"
  match_all_keys :: bool

definition UserStringKeyFilter_MATCH_ALL :: UserStringKeyFilter where
  "UserStringKeyFilter_MATCH_ALL = \<lparr>elements = {}, match_all_keys = True\<rparr>"

definition UserStringKeyFilter_bool :: "UserStringKeyFilter \<Rightarrow> bool" where
  "UserStringKeyFilter_bool f = (match_all_keys f \<or> elements f \<noteq> {})"

definition UserStringKeyFilter_contains :: "UserStringKeyFilter \<Rightarrow> filter_key \<Rightarrow> bool" where
  "UserStringKeyFilter_contains f k =
     (if match_all_keys f then True
      else (case k of
              Parts ks \<Rightarrow> (if length ks = 1 then hd ks else join '','' ks)
            | Single s \<Rightarrow> s) \<in> elements f)"

definition UserStringKeyFilter_add :: "string \<Rightarrow> UserStringKeyFilter \<Rightarrow> UserStringKeyFilter" where
  "UserStringKeyFilter_add k f =
     (if \<not> match_all_keys f then f\<lparr>elements := insert k (elements f)\<rparr> else f)"

text \<open>\<open>recursive_get\<close> and \<open>recursive_set\<close> assert that exactly one key is given.\<close>

definition UserStringKeyFilter_recursive_get ::
  "UserStringKeyFilter \<Rightarrow> filter_key list \<Rightarrow> error + bool" where
  "UserStringKeyFilter_recursive_get f ks =
     (if length ks \<noteq> 1 then Inl AssertionError
      else Inr (UserStringKeyFilter_contains f (hd ks)))"

definition UserStringKeyFilter_recursive_set ::
  "string list \<Rightarrow> bool \<Rightarrow> UserStringKeyFilter \<Rightarrow> error + UserStringKeyFilter" where
  "UserStringKeyFilter_recursive_set ks v f =
     (if length ks \<noteq> 1 then Inl AssertionError
      else if \<not> v then Inl AssertionError
      else Inr (UserStringKeyFilter_add (hd ks) f))"

subsection \<open>KeyFilterDict and DatasetKeyFilter\<close>

text \<open>
  A \<open>KeyFilterDict\<close> is a dictionary (kept in insertion order) with the \<open>match_all\<close>
  attribute. Its subclasses fix the type of the children and the child that matches all.
\<close>

record 'c KeyFilterDict =
  data :: "(string \<times> 'c) list"
  match_all :: bool

definition KeyFilterDict_bool :: "('c, 'z) KeyFilterDict_scheme \<Rightarrow> bool" where
  "KeyFilterDict_bool f = (match_all f \<or> data f \<noteq> [])"

definition KeyFilterDict_contains :: "('c, 'z) KeyFilterDict_scheme \<Rightarrow> string \<Rightarrow> bool" where
  "KeyFilterDict_contains f k = (match_all f \<or> map_of (data f) k \<noteq> None)"

definition KeyFilterDict_getitem ::
  "'c \<Rightarrow> ('c, 'z) KeyFilterDict_scheme \<Rightarrow> string \<Rightarrow> error + 'c" where
  "KeyFilterDict_getitem child_that_matches_all f k =
     (if match_all f then Inr child_that_matches_all
      else case map_of (data f) k of None \<Rightarrow> Inl KeyError | Some c \<Rightarrow> Inr c)"

definition KeyFilterDict_get ::
  "'c \<Rightarrow> ('c, 'z) KeyFilterDict_scheme \<Rightarrow> string \<Rightarrow> 'c option \<Rightarrow> 'c option" where
  "KeyFilterDict_get child_that_matches_all f k default_value =
     (if match_all f then Some child_that_matches_all
      else case map_of (data f) k of None \<Rightarrow> default_value | Some c \<Rightarrow> Some c)"

definition KeyFilterDict_setitem ::
  "string \<Rightarrow> 'c \<Rightarrow> ('c, 'z) KeyFilterDict_scheme \<Rightarrow> ('c, 'z) KeyFilterDict_scheme" where
  "KeyFilterDict_setitem k v f =
     (if \<not> match_all f then f\<lparr>data := AList.update k v (data f)\<rparr> else f)"

type_synonym DatasetKeyFilter = "UserStringKeyFilter KeyFilterDict"

definition DatasetKeyFilter_child_that_matches_all :: UserStringKeyFilter where
  "DatasetKeyFilter_child_that_matches_all = \<lparr>elements = {}, match_all_keys = True\<rparr>"

definition DatasetKeyFilter_MATCH_ALL :: DatasetKeyFilter where
  "DatasetKeyFilter_MATCH_ALL = \<lparr>data = [], match_all = True\<rparr>"

subsection \<open>fnmatch\<close>

text \<open>
  \<open>fnmatch.fnmatch\<close> of the Python standard library, on a system where
  \<open>os.path.normcase\<close> changes nothing. The pattern is read left to right: \<open>*\<close> matches
  any text, \<open>?\<close> any one character, \<open>[\<close> opens a character class when a closing
  \<open>]\<close> follows (a \<open>]\<close> right after the \<open>[\<close> or after \<open>[!\<close> belongs to the
  class) and is a literal otherwise; every other character is a literal. A class that
  starts with \<open>!\<close> is negated; \<open>a-z\<close> in a class is a range.
\<close>

datatype glob_token = Star | Any_char | Literal char | Char_class string

definition class_closes :: "string \<Rightarrow> bool" where
  "class_closes cs =
     (let r1 = (case cs of c # r \<Rightarrow> if c = CHR ''!'' then r else cs | [] \<Rightarrow> cs);
          r2 = (case r1 of c # r \<Rightarrow> if c = CHR '']'' then r else r1 | [] \<Rightarrow> r1)
      in CHR '']'' \<in> set r2)"

datatype parse_state = Top | In_class string

fun translate :: "parse_state \<Rightarrow> string \<Rightarrow> glob_token list" where
  "translate st [] = []"
| "translate Top (c # cs) =
     (if c = CHR ''*'' then Star # translate Top cs
      else if c = CHR ''?'' then Any_char # translate Top cs
      else if c = CHR ''['' then
        (if class_closes cs then translate (In_class []) cs
         else Literal c # translate Top cs)
      else Literal c # translate Top cs)"
| "translate (In_class stuff) (c # cs) =
     (if c = CHR '']'' \<and> stuff \<noteq> [] \<and> stuff \<noteq> ''!''
      then Char_class stuff # translate Top cs
      else translate (In_class (stuff @ [c])) cs)"

fun in_ranges :: "string \<Rightarrow> char \<Rightarrow> bool" where
  "in_ranges [] c = False"
| "in_ranges [a] c = (a = c)"
| "in_ranges [a, b] c = (a = c \<or> b = c)"
| "in_ranges (a # m # b # rest) c =
     (if m = CHR ''-''
      then ((of_char a :: nat) \<le> of_char c \<and> (of_char c :: nat) \<le> of_char b) \<or> in_ranges rest c
      else a = c \<or> in_ranges (m # b # rest) c)"

definition class_matches :: "string \<Rightarrow> char \<Rightarrow> bool" where
  "class_matches stuff c =
     (case stuff of
        [] \<Rightarrow> False
      | x # rest \<Rightarrow> if x = CHR ''!'' then \<not> in_ranges rest c else in_ranges stuff c)"

fun glob_match :: "glob_token list \<Rightarrow> string \<Rightarrow> bool" where
  "glob_match [] s = (s = [])"
| "glob_match (Star # ts) [] = glob_match ts []"
| "glob_match (Star # ts) (x # s) = (glob_match ts (x # s) \<or> glob_match (Star # ts) s)"
| "glob_match (Any_char # ts) [] = False"
| "glob_match (Any_char # ts) (x # s) = glob_match ts s"
| "glob_match (Literal c # ts) [] = False"
| "glob_match (Literal c # ts) (x # s) = (x = c \<and> glob_match ts s)"
| "glob_match (Char_class stuff # ts) [] = False"
| "glob_match (Char_class stuff # ts) (x # s) = (class_matches stuff x \<and> glob_match ts s)"

definition fnmatch :: "string \<Rightarrow> string \<Rightarrow> bool" where
  "fnmatch name pat = glob_match (translate Top pat) name"

subsection \<open>RepoKeyFilter\<close>

record 'c RepoKeyFilter = "'c KeyFilterDict" +
  dataset_glob_filters :: "(string \<times> 'c) list"

definition RepoKeyFilter_child_that_matches_all :: DatasetKeyFilter where
  "RepoKeyFilter_child_that_matches_all = \<lparr>data = [], match_all = True\<rparr>"

definition RepoKeyFilter_MATCH_ALL :: "DatasetKeyFilter RepoKeyFilter" where
  "RepoKeyFilter_MATCH_ALL = \<lparr>data = [], match_all = True, dataset_glob_filters = []\<rparr>"

text \<open>\<open>RepoKeyFilter()\<close>: an empty filter that does not match all.\<close>

definition RepoKeyFilter_new :: "DatasetKeyFilter RepoKeyFilter" where
  "RepoKeyFilter_new = \<lparr>data = [], match_all = False, dataset_glob_filters = []\<rparr>"

text \<open>\<open>str.replace\<close> of one character by a string.\<close>

definition replace :: "char \<Rightarrow> string \<Rightarrow> string \<Rightarrow> string" where
  "replace ch new_text s = concat (map (\<lambda>x. if x = ch then new_text else [x]) s)"

text \<open>
  The escaping loop of \<open>RepoKeyFilter.__setitem__\<close>: for each of \<open>?\<close>, \<open>[\<close>,
  \<open>]\<close> in turn, every occurrence in the key as it then stands is wrapped in brackets.
\<close>

definition escape_glob :: "string \<Rightarrow> string" where
  "escape_glob k =
     fold (\<lambda>ch k'. replace ch ([CHR ''[''] @ [ch] @ [CHR '']'']) k') ''?[]'' k"

definition dataset_glob_pattern_matching_key ::
  "('c, 'z) RepoKeyFilter_scheme \<Rightarrow> string \<Rightarrow> string option" where
  "dataset_glob_pattern_matching_key f k =
     (if dataset_glob_filters f \<noteq> []
      then find (\<lambda>glob_pattern. fnmatch k glob_pattern) (map fst (dataset_glob_filters f))
      else None)"

definition RepoKeyFilter_contains :: "('c, 'z) RepoKeyFilter_scheme \<Rightarrow> string \<Rightarrow> bool" where
  "RepoKeyFilter_contains f k =
     (KeyFilterDict_contains f k \<or> dataset_glob_pattern_matching_key f k \<noteq> None)"

definition RepoKeyFilter_getitem ::
  "'c \<Rightarrow> ('c, 'z) RepoKeyFilter_scheme \<Rightarrow> string \<Rightarrow> error + 'c" where
  "RepoKeyFilter_getitem child_that_matches_all f k =
     (if match_all f then Inr child_that_matches_all
      else case KeyFilterDict_getitem child_that_matches_all f k of
             Inr c \<Rightarrow> Inr c
           | Inl e \<Rightarrow>
               (case dataset_glob_pattern_matching_key f k of
                  None \<Rightarrow> Inl e
                | Some glob_pattern \<Rightarrow>
                    (case map_of (dataset_glob_filters f) glob_pattern of
                       None \<Rightarrow> Inl KeyError
                     | Some c \<Rightarrow> Inr c)))"

definition RepoKeyFilter_get ::
  "'c \<Rightarrow> ('c, 'z) RepoKeyFilter_scheme \<Rightarrow> string \<Rightarrow> 'c option \<Rightarrow> 'c option" where
  "RepoKeyFilter_get child_that_matches_all f k default_value =
     (case RepoKeyFilter_getitem child_that_matches_all f k of
        Inr c \<Rightarrow> Some c
      | Inl e \<Rightarrow> default_value)"

definition RepoKeyFilter_setitem ::
  "string \<Rightarrow> 'c \<Rightarrow> ('c, 'z) RepoKeyFilter_scheme \<Rightarrow> ('c, 'z) RepoKeyFilter_scheme" where
  "RepoKeyFilter_setitem k v f =
     (if match_all f then f
      else if CHR ''*'' \<in> set k
      then KeyFilterDict_setitem (escape_glob k) v
             (f\<lparr>dataset_glob_filters := AList.update (escape_glob k) v (dataset_glob_filters f)\<rparr>)
      else KeyFilterDict_setitem k v f)"

text \<open>
  What the claim asks of a dataset glob: \<open>*\<close> stands for any text and every other
  character, \<open>?\<close>, \<open>[\<close> and \<open>]\<close> included, for itself.
\<close>

definition star_only_match :: "string \<Rightarrow> string \<Rightarrow> bool" where
  "star_only_match name pat =
     glob_match (map (\<lambda>c. if c = CHR ''*'' then Star else Literal c) pat) name"

text \<open>Runs of operations on filters, for stating that a match-all filter never changes.\<close>

datatype string_filter_op = Add string | Recursive_set "string list"

fun UserStringKeyFilter_apply ::
  "string_filter_op \<Rightarrow> UserStringKeyFilter \<Rightarrow> UserStringKeyFilter" where
  "UserStringKeyFilter_apply (Add k) f = UserStringKeyFilter_add k f"
| "UserStringKeyFilter_apply (Recursive_set ks) f =
     (case UserStringKeyFilter_recursive_set ks True f of Inl e \<Rightarrow> f | Inr f' \<Rightarrow> f')"

section \<open>Example inputs\<close>

text \<open>
  A repository in the middle of a merge whose conflicts are all resolved, and the
  collaborators around it: the context returns the repository, a git user is configured,
  and the user either leaves the draft message as it is or leaves no message at all.
\<close>

definition example_merging_repo :: KartRepo where
  "example_merging_repo =
     \<lparr>gitdir_files = [MERGE_HEAD \<mapsto> ''t1'', MERGED_INDEX \<mapsto> ''index'', MERGE_MSG \<mapsto> ''Merge b''],
      head_name = ''refs/heads/main'',
      references = Map.empty,
      commits = [],
      working_copy_commit = None,
      working_copy_modified = True\<rparr>"

definition returns_repo :: "KartRepoState list \<Rightarrow> KartRepo \<Rightarrow> error + KartRepo" where
  "returns_repo allowed_states repo = Inr repo"

definition all_resolved :: "KartRepo \<Rightarrow> MergedIndex" where
  "all_resolved repo = \<lparr>unresolved_conflicts = [], resolved_tree = ''tree1''\<rparr>"

definition one_unresolved :: "KartRepo \<Rightarrow> MergedIndex" where
  "one_unresolved repo = \<lparr>unresolved_conflicts = [''points:feature:1''], resolved_tree = ''tree1''\<rparr>"

definition example_context :: "KartRepo \<Rightarrow> MergeContext" where
  "example_context repo =
     \<lparr>ancestor = ''a1'', ours = ''o1'', theirs = ''t1'', get_message = ''Merge b''\<rparr>"

definition user_configured :: "KartRepo \<Rightarrow> error option" where
  "user_configured repo = None"

definition example_signature :: "KartRepo \<Rightarrow> string" where
  "example_signature repo = ''user''"

definition keeps_draft :: "KartRepo \<Rightarrow> oid \<Rightarrow> string \<Rightarrow> string option" where
  "keeps_draft repo merge_tree_id draft = Some draft"

definition leaves_no_message :: "KartRepo \<Rightarrow> oid \<Rightarrow> string \<Rightarrow> string option" where
  "leaves_no_message repo merge_tree_id draft = None"

definition example_env :: "(KartRepo \<Rightarrow> MergedIndex) \<Rightarrow> (KartRepo \<Rightarrow> oid \<Rightarrow> string \<Rightarrow> string option) \<Rightarrow> merge_env" where
  "example_env index editor =
     \<lparr>get_repo = returns_repo, read_merged_index = index,
      read_merge_context = example_context, check_git_user = user_configured,
      default_signature = example_signature, edit_commit_message = editor\<rparr>"

definition example_params :: merge_params where
  "example_params = \<lparr>param_message = None, param_launch_editor = True\<rparr>"

text \<open>
  Schemas for an example history: schema 0 is the schema being imported, schema 1 differs
  from it by a primary-key change, schema 2 by an added column, schema 3 by a changed
  column type only.
\<close>

definition example_counts :: "nat \<Rightarrow> nat \<Rightarrow> type_counts" where
  "example_counts old_schema new_schema =
     (if old_schema = 1 then \<lparr>inserts = 0, updates = 0, deletes = 0, pk_updates = 1\<rparr>
      else if old_schema = 2 then \<lparr>inserts = 1, updates = 0, deletes = 0, pk_updates = 0\<rparr>
      else if old_schema = 3 then \<lparr>inserts = 0, updates = 1, deletes = 0, pk_updates = 0\<rparr>
      else \<lparr>inserts = 0, updates = 0, deletes = 0, pk_updates = 0\<rparr>)"

definition points_with :: "nat \<Rightarrow> nat Dataset" where
  "points_with s = \<lparr>path = ''points'', schema = s\<rparr>"

definition commit_with :: "nat \<Rightarrow> (string \<rightharpoonup> nat Dataset)" where
  "commit_with s = [''points'' \<mapsto> points_with s]"

definition commit_without :: "string \<rightharpoonup> nat Dataset" where
  "commit_without = Map.empty"

text \<open>A source whose iterator yields three feature blobs, with one deletion in between.\<close>

definition example_source :: import_source where
  "example_source =
     \<lparr>clear_tree_commands = [D ''points''],
      feature_blob_iter = [Feature_blob ''f1'' ''d1'', Id_deleted ''f2'', Feature_blob ''f2'' ''d2'',
                           Feature_blob ''f3'' ''d3''],
      feature_blobs_already_written = False,
      meta_blobs = [(''schema.json'', ''{}'')]\<rparr>"

text \<open>
  A repository with one commit on its head branch, a run in which git fast-import fails
  after it has written the reference, a run that ends well, and a tile import that does
  not amend.
\<close>

definition example_commit :: "string \<Rightarrow> oid list \<Rightarrow> Commit" where
  "example_commit t ps =
     \<lparr>author = ''user'', committer = ''user'', message = ''import'', tree = t, parent_ids = ps\<rparr>"

definition example_repo :: KartRepo where
  "example_repo =
     \<lparr>gitdir_files = Map.empty,
      head_name = ''refs/heads/main'',
      references = [''refs/heads/main'' \<mapsto> example_commit ''tree0'' []],
      commits = [example_commit ''tree0'' []],
      working_copy_commit = Some (example_commit ''tree0'' []),
      working_copy_modified = False\<rparr>"

definition failing_run :: import_run where
  "failing_run =
     \<lparr>uuid4 = ''1234'', head_branch = Some ''refs/heads/main'',
      detached_commit = example_commit ''tree0'' [],
      generate_header_error = None, stream_error = Some SubprocessError,
      ref_written_on_error = True, imported_commit = example_commit ''tree1'' [''c0''],
      create_commit_error = None, checkout_error = None\<rparr>"

definition good_run :: import_run where
  "good_run =
     \<lparr>uuid4 = ''1234'', head_branch = Some ''refs/heads/main'',
      detached_commit = example_commit ''tree0'' [],
      generate_header_error = None, stream_error = None,
      ref_written_on_error = False, imported_commit = example_commit ''tree1'' [''c0''],
      create_commit_error = None, checkout_error = None\<rparr>"

definition example_tile_import :: tile_import where
  "example_tile_import =
     \<lparr>amend = False, tile_allow_empty = False, tile_message = ''import tiles'',
      committer_signature = ''user''\<rparr>"

text \<open>
  A run in which the user interrupts the import while git fast-import is finishing: the
  reference is written, and \<open>KeyboardInterrupt\<close> leaves the block.
\<close>

definition interrupted_run :: import_run where
  "interrupted_run =
     \<lparr>uuid4 = ''1234'', head_branch = Some ''refs/heads/main'',
      detached_commit = example_commit ''tree0'' [],
      generate_header_error = None, stream_error = Some KeyboardInterrupt,
      ref_written_on_error = True, imported_commit = example_commit ''tree1'' [''c0''],
      create_commit_error = None, checkout_error = None\<rparr>"

section \<open>Properties of deltas\<close>

lemma is_Delta_cases:
  "is_Delta d \<longleftrightarrow>
     (old d = None \<and> new d \<noteq> None \<and> dtype d = Insert) \<or>
     (old d \<noteq> None \<and> new d = None \<and> dtype d = Delete) \<or>
     (old d \<noteq> None \<and> new d \<noteq> None \<and> dtype d = Update)"
  by (cases d) (auto simp: is_Delta_def Delta_init_def)

lemma invert_is_Delta:
  assumes "is_Delta d"
  shows "invert d = Inr \<lparr>old = new d, new = old d, dtype = (case dtype d of Insert \<Rightarrow> Delete | Delete \<Rightarrow> Insert | Update \<Rightarrow> Update), flags = 0\<rparr>"
  using assms by (auto simp: is_Delta_cases invert_def Delta_init_def split: delta_type.splits)

lemma is_Delta_inverted:
  assumes "is_Delta d"
  shows "is_Delta \<lparr>old = new d, new = old d, dtype = (case dtype d of Insert \<Rightarrow> Delete | Delete \<Rightarrow> Insert | Update \<Rightarrow> Update), flags = 0\<rparr>"
  using assms by (auto simp: is_Delta_cases split: delta_type.splits)

lemma add_Insert:
  assumes "is_Delta a" and "is_Delta b" and "dtype a = Insert"
  shows "add a b = (case dtype b of
           Insert \<Rightarrow> Inl Conflict
         | Update \<Rightarrow> Inr (Some \<lparr>old = None, new = new b, dtype = Insert,
                                  flags = flags a OR flags b\<rparr>)
         | Delete \<Rightarrow> Inr None)"
  using assms
  by (auto simp: is_Delta_cases add_def add_result_def Delta_insert_def Delta_init_def
      split: delta_type.splits)

lemma add_Update:
  assumes "is_Delta a" and "is_Delta b" and "dtype a = Update"
  shows "add a b = (case dtype b of
           Insert \<Rightarrow> Inl Conflict
         | Update \<Rightarrow> (if old_value a = new_value b then Inr None
                      else Inr (Some \<lparr>old = old a, new = new b, dtype = Update,
                                        flags = flags a OR flags b\<rparr>))
         | Delete \<Rightarrow> Inr (Some \<lparr>old = old a, new = None, dtype = Delete,
                                  flags = flags a OR flags b\<rparr>))"
  using assms
  by (auto simp: is_Delta_cases add_def add_result_def Delta_delete_def Delta_init_def
      maybe_update_def old_value_def new_value_def split: delta_type.splits)

lemma add_Delete:
  assumes "is_Delta a" and "is_Delta b" and "dtype a = Delete"
  shows "add a b = (case dtype b of
           Insert \<Rightarrow> (if old_value a = new_value b then Inr None
                      else Inr (Some \<lparr>old = old a, new = new b, dtype = Update,
                                        flags = flags a OR flags b\<rparr>))
         | Update \<Rightarrow> Inl Conflict
         | Delete \<Rightarrow> Inl Conflict)"
  using assms
  by (auto simp: is_Delta_cases add_def add_result_def Delta_init_def
      maybe_update_def old_value_def new_value_def split: delta_type.splits)

lemma invert_add:
  assumes a: "is_Delta a" and b: "is_Delta b" and c: "add a b = Inr (Some c)"
  shows "\<exists>a' b' c'. invert a = Inr a' \<and> invert b = Inr b' \<and> invert c = Inr c' \<and>
                     add b' a' = Inr (Some c')"
proof -
  let ?a' = "\<lparr>old = new a, new = old a, dtype = (case dtype a of Insert \<Rightarrow> Delete | Delete \<Rightarrow> Insert | Update \<Rightarrow> Update), flags = 0\<rparr>"
  let ?b' = "\<lparr>old = new b, new = old b, dtype = (case dtype b of Insert \<Rightarrow> Delete | Delete \<Rightarrow> Insert | Update \<Rightarrow> Update), flags = 0\<rparr>"
  have ia: "invert a = Inr ?a'" and ib: "invert b = Inr ?b'"
    using a b by (simp_all add: invert_is_Delta)
  have wa: "is_Delta ?a'" and wb: "is_Delta ?b'"
    using a b by (simp_all add: is_Delta_inverted)
  have "\<exists>c'. invert c = Inr c' \<and> add ?b' ?a' = Inr (Some c')"
  proof (cases "dtype a")
    case Insert
    with add_Insert[OF a b] c have tb: "dtype b = Update"
      by (cases "dtype b") simp_all
    with Insert add_Insert[OF a b] c
    have cf: "c = \<lparr>old = None, new = new b, dtype = Insert, flags = flags a OR flags b\<rparr>"
      by simp
    from b tb have "new b \<noteq> None" by (auto simp: is_Delta_cases)
    then have "invert c = Inr \<lparr>old = new b, new = None, dtype = Delete, flags = 0\<rparr>"
      by (auto simp: cf invert_def Delta_init_def)
    moreover have "add ?b' ?a' = Inr (Some \<lparr>old = new b, new = None, dtype = Delete, flags = 0\<rparr>)"
      using add_Update[OF wb wa] Insert tb by simp
    ultimately show ?thesis by simp
  next
    case Update
    show ?thesis
    proof (cases "dtype b")
      case Insert
      with Update add_Update[OF a b] c show ?thesis by simp
    next
      case tb: Update
      with Update add_Update[OF a b] c
      have ne: "old_value a \<noteq> new_value b"
        and cf: "c = \<lparr>old = old a, new = new b, dtype = Update, flags = flags a OR flags b\<rparr>"
        by (simp_all split: if_splits)
      from a b Update tb have "old a \<noteq> None" "new b \<noteq> None" by (auto simp: is_Delta_cases)
      then have "invert c = Inr \<lparr>old = new b, new = old a, dtype = Update, flags = 0\<rparr>"
        by (auto simp: cf invert_def Delta_init_def)
      moreover have "add ?b' ?a' = Inr (Some \<lparr>old = new b, new = old a, dtype = Update, flags = 0\<rparr>)"
        using add_Update[OF wb wa] Update tb ne
        by (auto simp: old_value_def new_value_def)
      ultimately show ?thesis by simp
    next
      case Delete
      with Update add_Update[OF a b] c
      have cf: "c = \<lparr>old = old a, new = None, dtype = Delete, flags = flags a OR flags b\<rparr>"
        by simp
      from a Update have "old a \<noteq> None" by (auto simp: is_Delta_cases)
      then have "invert c = Inr \<lparr>old = None, new = old a, dtype = Insert, flags = 0\<rparr>"
        by (auto simp: cf invert_def Delta_init_def)
      moreover have "add ?b' ?a' = Inr (Some \<lparr>old = None, new = old a, dtype = Insert, flags = 0\<rparr>)"
        using add_Insert[OF wb wa] Update Delete by simp
      ultimately show ?thesis by simp
    qed
  next
    case Delete
    with add_Delete[OF a b] c have tb: "dtype b = Insert"
      by (cases "dtype b") simp_all
    with Delete add_Delete[OF a b] c
    have ne: "old_value a \<noteq> new_value b"
      and cf: "c = \<lparr>old = old a, new = new b, dtype = Update, flags = flags a OR flags b\<rparr>"
      by (simp_all split: if_splits)
    from a b Delete tb have "old a \<noteq> None" "new b \<noteq> None" by (auto simp: is_Delta_cases)
    then have "invert c = Inr \<lparr>old = new b, new = old a, dtype = Update, flags = 0\<rparr>"
      by (auto simp: cf invert_def Delta_init_def)
    moreover have "add ?b' ?a' = Inr (Some \<lparr>old = new b, new = old a, dtype = Update, flags = 0\<rparr>)"
      using add_Delete[OF wb wa] Delete tb ne
      by (auto simp: old_value_def new_value_def)
    ultimately show ?thesis by simp
  qed
  with ia ib show ?thesis by simp
qed

lemma add_flags:
  assumes "add a b = Inr (Some c)"
  shows "flags c = flags a OR flags b"
  using assms by (auto simp: add_def split: sum.splits option.splits)

text \<open>
  C1. Concatenation follows the composition table. For any two deltas as \<open>Delta.__init__\<close>
  builds them (whether or not \<open>a.new = b.old\<close>): insert + insert, update + insert,
  delete + update and delete + delete raise \<open>Conflict\<close>; insert + update is the insert of
  \<open>b.new\<close>; insert + delete is no delta; update + delete is the delete of \<open>a.old\<close>;
  update + update and delete + insert are the update from \<open>a.old\<close> to \<open>b.new\<close>, or
  no delta when the value of \<open>a.old\<close> equals the value of \<open>b.new\<close> (the keys are not
  compared). A resulting delta carries the flags of both.
\<close>

theorem add_follows_table:
  assumes "is_Delta a" and "is_Delta b"
  shows "(dtype a = Insert \<and> dtype b = Insert \<longrightarrow> add a b = Inl Conflict) \<and>
         (dtype a = Insert \<and> dtype b = Update \<longrightarrow>
            add a b = Inr (Some \<lparr>old = None, new = new b, dtype = Insert,
                                  flags = flags a OR flags b\<rparr>)) \<and>
         (dtype a = Insert \<and> dtype b = Delete \<longrightarrow> add a b = Inr None) \<and>
         (dtype a = Update \<and> dtype b = Insert \<longrightarrow> add a b = Inl Conflict) \<and>
         (dtype a = Update \<and> dtype b = Update \<longrightarrow>
            add a b = (if old_value a = new_value b then Inr None
                       else Inr (Some \<lparr>old = old a, new = new b, dtype = Update,
                                         flags = flags a OR flags b\<rparr>))) \<and>
         (dtype a = Update \<and> dtype b = Delete \<longrightarrow>
            add a b = Inr (Some \<lparr>old = old a, new = None, dtype = Delete,
                                  flags = flags a OR flags b\<rparr>)) \<and>
         (dtype a = Delete \<and> dtype b = Insert \<longrightarrow>
            add a b = (if old_value a = new_value b then Inr None
                       else Inr (Some \<lparr>old = old a, new = new b, dtype = Update,
                                         flags = flags a OR flags b\<rparr>))) \<and>
         (dtype a = Delete \<and> dtype b = Update \<longrightarrow> add a b = Inl Conflict) \<and>
         (dtype a = Delete \<and> dtype b = Delete \<longrightarrow> add a b = Inl Conflict)"
  using assms
  by (auto simp: is_Delta_cases add_def add_result_def Delta_insert_def Delta_delete_def
        Delta_init_def maybe_update_def old_value_def new_value_def)

theorem add_follows_table_witness:
  "is_Delta \<lparr>old = None, new = Some \<lparr>key = 1::nat, kv_value = Plain ''a''\<rparr>,
              dtype = Insert, flags = 1\<rparr> \<and>
   is_Delta \<lparr>old = Some \<lparr>key = 1::nat, kv_value = Plain ''a''\<rparr>,
              new = Some \<lparr>key = 1, kv_value = Plain ''b''\<rparr>, dtype = Update, flags = 2\<rparr> \<and>
   add \<lparr>old = None, new = Some \<lparr>key = 1::nat, kv_value = Plain ''a''\<rparr>,
         dtype = Insert, flags = 1\<rparr>
       \<lparr>old = Some \<lparr>key = 1::nat, kv_value = Plain ''a''\<rparr>,
         new = Some \<lparr>key = 1, kv_value = Plain ''b''\<rparr>, dtype = Update, flags = 2\<rparr>
     = Inr (Some \<lparr>old = None, new = Some \<lparr>key = 1, kv_value = Plain ''b''\<rparr>,
                   dtype = Insert, flags = 3\<rparr>)"
  using add_follows_table
    [of "\<lparr>old = None, new = Some \<lparr>key = 1::nat, kv_value = Plain ''a''\<rparr>,
          dtype = Insert, flags = 1\<rparr>"
        "\<lparr>old = Some \<lparr>key = 1::nat, kv_value = Plain ''a''\<rparr>,
          new = Some \<lparr>key = 1, kv_value = Plain ''b''\<rparr>, dtype = Update, flags = 2\<rparr>"]
  by (simp add: is_Delta_def Delta_init_def)

text \<open>
  C2. Inversion swaps the two sides, and inverting twice gives back a delta that is equal
  to the first in the equality of the class (which compares \<open>old\<close> and \<open>new\<close>; the
  inverse is a new delta, so its flags are 0). When \<open>a + b\<close> is a delta \<open>c\<close>, then
  \<open>~b + ~a\<close> is the delta \<open>~c\<close>, and the flags of \<open>c\<close> are the bitwise or of the
  flags of \<open>a\<close> and \<open>b\<close>.
\<close>

theorem invert_laws:
  assumes "is_Delta d" and "is_Delta a" and "is_Delta b" and "add a b = Inr (Some c)"
  shows "(\<exists>d' d''. invert d = Inr d' \<and> old d' = new d \<and> new d' = old d \<and>
                   invert d' = Inr d'' \<and> Delta_eq d'' d) \<and>
         (\<exists>a' b' c'. invert a = Inr a' \<and> invert b = Inr b' \<and> invert c = Inr c' \<and>
                     add b' a' = Inr (Some c')) \<and>
         flags c = flags a OR flags b"
proof -
  have "\<exists>d' d''. invert d = Inr d' \<and> old d' = new d \<and> new d' = old d \<and>
                   invert d' = Inr d'' \<and> Delta_eq d'' d"
    using invert_is_Delta[OF assms(1)] invert_is_Delta[OF is_Delta_inverted[OF assms(1)]]
    by (simp add: Delta_eq_def)
  with invert_add[OF assms(2,3,4)] add_flags[OF assms(4)] show ?thesis by blast
qed

theorem invert_laws_witness:
  "is_Delta \<lparr>old = None, new = Some \<lparr>key = 1::nat, kv_value = Plain ''a''\<rparr>,
              dtype = Insert, flags = 1\<rparr> \<and>
   is_Delta \<lparr>old = Some \<lparr>key = 1::nat, kv_value = Plain ''a''\<rparr>,
              new = Some \<lparr>key = 1, kv_value = Plain ''b''\<rparr>, dtype = Update, flags = 2\<rparr> \<and>
   add \<lparr>old = None, new = Some \<lparr>key = 1::nat, kv_value = Plain ''a''\<rparr>,
         dtype = Insert, flags = 1\<rparr>
       \<lparr>old = Some \<lparr>key = 1::nat, kv_value = Plain ''a''\<rparr>,
         new = Some \<lparr>key = 1, kv_value = Plain ''b''\<rparr>, dtype = Update, flags = 2\<rparr>
     = Inr (Some \<lparr>old = None, new = Some \<lparr>key = 1, kv_value = Plain ''b''\<rparr>,
                   dtype = Insert, flags = 3\<rparr>) \<and>
   add \<lparr>old = Some \<lparr>key = 1::nat, kv_value = Plain ''b''\<rparr>,
         new = Some \<lparr>key = 1, kv_value = Plain ''a''\<rparr>, dtype = Update, flags = 0\<rparr>
       \<lparr>old = Some \<lparr>key = 1::nat, kv_value = Plain ''a''\<rparr>, new = None,
         dtype = Delete, flags = 0\<rparr>
     = Inr (Some \<lparr>old = Some \<lparr>key = 1, kv_value = Plain ''b''\<rparr>, new = None,
                   dtype = Delete, flags = 0\<rparr>)"
proof -
  let ?a = "\<lparr>old = None, new = Some \<lparr>key = 1::nat, kv_value = Plain ''a''\<rparr>,
             dtype = Insert, flags = 1\<rparr>"
  let ?b = "\<lparr>old = Some \<lparr>key = 1::nat, kv_value = Plain ''a''\<rparr>,
             new = Some \<lparr>key = 1, kv_value = Plain ''b''\<rparr>, dtype = Update, flags = 2\<rparr>"
  let ?c = "\<lparr>old = None, new = Some \<lparr>key = 1::nat, kv_value = Plain ''b''\<rparr>,
             dtype = Insert, flags = 3\<rparr>"
  have a: "is_Delta ?a" and b: "is_Delta ?b"
    by (simp_all add: is_Delta_def Delta_init_def)
  have c: "add ?a ?b = Inr (Some ?c)"
    by (simp add: add_def add_result_def Delta_insert_def Delta_init_def)
  from invert_laws [OF a a b c] a b c show ?thesis
    by (simp add: invert_def Delta_init_def)
qed

section \<open>Properties of the merge state machine\<close>

lemma remove_gitdir_file_fields:
  "head_name (remove_gitdir_file f repo) = head_name repo"
  "references (remove_gitdir_file f repo) = references repo"
  "commits (remove_gitdir_file f repo) = commits repo"
  "working_copy_commit (remove_gitdir_file f repo) = working_copy_commit repo"
  "working_copy_modified (remove_gitdir_file f repo) = working_copy_modified repo"
  by (simp_all add: remove_gitdir_file_def)

lemma remove_gitdir_file_files:
  "gitdir_files (remove_gitdir_file f repo) = (gitdir_files repo)(f := None)"
  by (auto simp: remove_gitdir_file_def gitdir_file_exists_def)

lemma fold_remove_fields:
  "head_name (fold remove_gitdir_file fs repo) = head_name repo \<and>
   references (fold remove_gitdir_file fs repo) = references repo \<and>
   commits (fold remove_gitdir_file fs repo) = commits repo \<and>
   working_copy_commit (fold remove_gitdir_file fs repo) = working_copy_commit repo \<and>
   working_copy_modified (fold remove_gitdir_file fs repo) = working_copy_modified repo"
  by (induction fs arbitrary: repo) (simp_all add: remove_gitdir_file_fields)

lemma fold_remove_files:
  "gitdir_files (fold remove_gitdir_file fs repo) g =
     (if g \<in> set fs then None else gitdir_files repo g)"
  by (induction fs arbitrary: repo) (auto simp: remove_gitdir_file_files)

lemma merge_files_removed:
  assumes "g \<in> set ALL_MERGE_FILES"
  shows "\<not> gitdir_file_exists (fold remove_gitdir_file ALL_MERGE_FILES repo) g"
  using assms by (simp add: gitdir_file_exists_def fold_remove_files)

lemma ALL_MERGE_FILES_members:
  "MERGE_HEAD \<in> set ALL_MERGE_FILES" "MERGED_INDEX \<in> set ALL_MERGE_FILES"
  "MERGED_TREE \<in> set ALL_MERGE_FILES" "MERGE_MSG \<in> set ALL_MERGE_FILES"
  "MERGE_BRANCH \<in> set ALL_MERGE_FILES"
  by (simp_all add: ALL_MERGE_FILES_def)

lemma state_after_remove:
  "state (fold remove_gitdir_file ALL_MERGE_FILES repo) = Inr NORMAL"
  using merge_files_removed[OF ALL_MERGE_FILES_members(1), of repo]
  by (simp add: state_def)

text \<open>
  C4. \<open>KartRepo.state\<close> returns \<open>MERGING\<close> exactly when both \<open>MERGE_HEAD\<close> and
  \<open>MERGED_INDEX\<close> exist, returns \<open>NORMAL\<close> exactly when \<open>MERGE_HEAD\<close> is absent,
  and raises \<open>NotFound\<close> exactly when \<open>MERGE_HEAD\<close> exists without
  \<open>MERGED_INDEX\<close>. These are the only three outcomes, so no repository is in both
  states.
\<close>

theorem state_cases:
  "(state repo = Inr MERGING) =
     (gitdir_file_exists repo MERGE_HEAD \<and> gitdir_file_exists repo MERGED_INDEX) \<and>
   (state repo = Inr NORMAL) = (\<not> gitdir_file_exists repo MERGE_HEAD) \<and>
   (state repo = Inl NotFound) =
     (gitdir_file_exists repo MERGE_HEAD \<and> \<not> gitdir_file_exists repo MERGED_INDEX) \<and>
   (state repo = Inl NotFound \<or> state repo = Inr NORMAL \<or> state repo = Inr MERGING)"
  by (auto simp: state_def Let_def)

lemma abort_result:
  assumes "get_repo env ALL_STATES repo = Inr repo"
  shows "abort_merging_state env repo =
     (if gitdir_file_exists repo MERGE_HEAD
      then (Inr (), reset_to_head (fold remove_gitdir_file ALL_MERGE_FILES repo))
      else (Inl InvalidOperation, fold remove_gitdir_file ALL_MERGE_FILES repo))"
  using assms by (simp add: abort_merging_state_def Let_def state_after_remove)

lemma state_reset_to_head: "state (reset_to_head repo) = state repo"
  by (simp add: state_def reset_to_head_def gitdir_file_exists_def)

lemma gitdir_reset_to_head: "gitdir_files (reset_to_head repo) = gitdir_files repo"
  by (simp add: reset_to_head_def)

text \<open>
  C5. After \<open>abort_merging_state\<close> has run on the repository the context returned,
  none of the five merge-state files exists and the state is \<open>NORMAL\<close>, on the normal
  exit and on the \<open>InvalidOperation\<close> exit alike. The command succeeds exactly when
  \<open>MERGE_HEAD\<close> existed before, and then the working copy is reset to HEAD.
\<close>

theorem abort_removes_merge_state:
  assumes "get_repo env ALL_STATES repo = Inr repo"
  shows "\<not> gitdir_file_exists (snd (abort_merging_state env repo)) MERGE_HEAD \<and>
         \<not> gitdir_file_exists (snd (abort_merging_state env repo)) MERGED_INDEX \<and>
         \<not> gitdir_file_exists (snd (abort_merging_state env repo)) MERGED_TREE \<and>
         \<not> gitdir_file_exists (snd (abort_merging_state env repo)) MERGE_MSG \<and>
         \<not> gitdir_file_exists (snd (abort_merging_state env repo)) MERGE_BRANCH \<and>
         state (snd (abort_merging_state env repo)) = Inr NORMAL \<and>
         fst (abort_merging_state env repo) =
           (if gitdir_file_exists repo MERGE_HEAD then Inr () else Inl InvalidOperation) \<and>
         (gitdir_file_exists repo MERGE_HEAD \<longrightarrow>
            working_copy_commit (snd (abort_merging_state env repo)) =
              references repo (head_name repo) \<and>
            \<not> working_copy_modified (snd (abort_merging_state env repo)))"
proof -
  let ?r = "fold remove_gitdir_file ALL_MERGE_FILES repo"
  have files: "\<not> gitdir_file_exists ?r MERGE_HEAD" "\<not> gitdir_file_exists ?r MERGED_INDEX"
    "\<not> gitdir_file_exists ?r MERGED_TREE" "\<not> gitdir_file_exists ?r MERGE_MSG"
    "\<not> gitdir_file_exists ?r MERGE_BRANCH"
    by (simp_all only: merge_files_removed ALL_MERGE_FILES_members not_False_eq_True)
  have refs: "references ?r = references repo" "head_name ?r = head_name repo"
    by (simp_all add: fold_remove_fields)
  show ?thesis
  proof (cases "gitdir_file_exists repo MERGE_HEAD")
    case True
    then have "abort_merging_state env repo = (Inr (), reset_to_head ?r)"
      using abort_result[OF assms] by simp
    then show ?thesis
      using files refs True state_after_remove[of repo]
      by (simp add: state_reset_to_head gitdir_file_exists_def gitdir_reset_to_head)
         (simp add: reset_to_head_def)
  next
    case False
    then have "abort_merging_state env repo = (Inl InvalidOperation, ?r)"
      using abort_result[OF assms] by simp
    then show ?thesis
      using files False state_after_remove[of repo] by simp
  qed
qed

theorem abort_removes_merge_state_witness:
  "get_repo (example_env all_resolved keeps_draft) ALL_STATES example_merging_repo
     = Inr example_merging_repo \<and>
   gitdir_file_exists example_merging_repo MERGE_HEAD \<and>
   working_copy_modified example_merging_repo \<and>
   fst (abort_merging_state (example_env all_resolved keeps_draft) example_merging_repo) = Inr () \<and>
   state (snd (abort_merging_state (example_env all_resolved keeps_draft) example_merging_repo))
     = Inr NORMAL \<and>
   \<not> working_copy_modified
       (snd (abort_merging_state (example_env all_resolved keeps_draft) example_merging_repo))"
proof -
  have h: "get_repo (example_env all_resolved keeps_draft) ALL_STATES example_merging_repo
     = Inr example_merging_repo"
    by (simp add: example_env_def returns_repo_def)
  have m: "gitdir_file_exists example_merging_repo MERGE_HEAD"
    by (simp add: gitdir_file_exists_def example_merging_repo_def)
  have w: "working_copy_modified example_merging_repo"
    by (simp add: example_merging_repo_def)
  from abort_removes_merge_state [OF h] h m w show ?thesis by simp
qed

lemma complete_unresolved:
  assumes "get_repo env [MERGING] repo = Inr repo"
    and "unresolved_conflicts (read_merged_index env repo) \<noteq> []"
  shows "complete_merging_state env params repo = (Inl InvalidOperation, repo)"
  using assms by (simp add: complete_merging_state_def Let_def)

lemma complete_resolved:
  assumes "get_repo env [MERGING] repo = Inr repo"
    and "unresolved_conflicts (read_merged_index env repo) = []"
    and "check_git_user env repo = None"
    and "merge_commit_message env params (read_merge_context env repo)
           (resolved_tree (read_merged_index env repo)) repo = Inr msg"
  shows "complete_merging_state env params repo =
     (Inr (), reset_to_head (fold remove_gitdir_file ALL_MERGE_FILES
        (snd (create_commit (Some (head_name repo)) (default_signature env repo)
                (default_signature env repo) msg (resolved_tree (read_merged_index env repo))
                [ours (read_merge_context env repo), theirs (read_merge_context env repo)]
                repo))))"
  using assms
  by (simp add: complete_merging_state_def Let_def state_after_remove split: prod.splits)

lemma complete_no_message:
  assumes "get_repo env [MERGING] repo = Inr repo"
    and "unresolved_conflicts (read_merged_index env repo) = []"
    and "check_git_user env repo = None"
    and "merge_commit_message env params (read_merge_context env repo)
           (resolved_tree (read_merged_index env repo)) repo = Inl e"
  shows "complete_merging_state env params repo = (Inl e, repo)"
  using assms by (simp add: complete_merging_state_def Let_def)

lemma commits_create_commit:
  "commits (snd (create_commit r a c msg t ps repo)) =
     commits repo @ [\<lparr>author = a, committer = c, message = msg, tree = t, parent_ids = ps\<rparr>]"
  by (simp add: create_commit_def Let_def split: option.splits)

lemma commits_reset_to_head: "commits (reset_to_head repo) = commits repo"
  by (simp add: reset_to_head_def)

text \<open>
  C3, as amended. In the merging state, \<open>complete_merging_state\<close> raises
  \<open>InvalidOperation\<close> and leaves the repository in the merging state, with no new
  commit, whenever the merged index has unresolved conflicts. When it has none, a git user
  is configured and the commit message step gives a message, it creates exactly one
  commit, with parents \<open>[ours, theirs]\<close>, and leaves the repository in the normal
  state.
\<close>

theorem complete_merging_state_commits:
  assumes "get_repo env [MERGING] repo = Inr repo"
    and "state repo = Inr MERGING"
    and "unresolved_conflicts (read_merged_index env repo) \<noteq> []"
    and "get_repo env' [MERGING] repo' = Inr repo'"
    and "state repo' = Inr MERGING"
    and "unresolved_conflicts (read_merged_index env' repo') = []"
    and "check_git_user env' repo' = None"
    and "merge_commit_message env' params' (read_merge_context env' repo')
           (resolved_tree (read_merged_index env' repo')) repo' = Inr msg"
  shows "fst (complete_merging_state env params repo) = Inl InvalidOperation \<and>
         state (snd (complete_merging_state env params repo)) = Inr MERGING \<and>
         commits (snd (complete_merging_state env params repo)) = commits repo \<and>
         fst (complete_merging_state env' params' repo') = Inr () \<and>
         (\<exists>c. commits (snd (complete_merging_state env' params' repo')) = commits repo' @ [c] \<and>
              parent_ids c = [ours (read_merge_context env' repo'),
                              theirs (read_merge_context env' repo')]) \<and>
         state (snd (complete_merging_state env' params' repo')) = Inr NORMAL"
proof -
  have "complete_merging_state env params repo = (Inl InvalidOperation, repo)"
    using assms(1,3) by (rule complete_unresolved)
  moreover note complete_resolved [OF assms(4,6,7,8)]
  ultimately show ?thesis
    using assms(2)
    by (simp add: state_reset_to_head state_after_remove commits_reset_to_head
        fold_remove_fields commits_create_commit)
qed

text \<open>
  C3 as stated fails: with no unresolved conflict, when the user leaves no commit message
  in the editor, \<open>get_commit_message\<close> raises \<open>UsageError\<close>; no commit is created and
  the repository stays in the merging state.
\<close>

theorem complete_merging_state_counterexample:
  "get_repo (example_env all_resolved leaves_no_message) [MERGING] example_merging_repo
     = Inr example_merging_repo \<and>
   state example_merging_repo = Inr MERGING \<and>
   unresolved_conflicts
     (read_merged_index (example_env all_resolved leaves_no_message) example_merging_repo) = [] \<and>
   fst (complete_merging_state (example_env all_resolved leaves_no_message) example_params
          example_merging_repo) = Inl UsageError \<and>
   commits (snd (complete_merging_state (example_env all_resolved leaves_no_message)
                   example_params example_merging_repo)) = commits example_merging_repo \<and>
   state (snd (complete_merging_state (example_env all_resolved leaves_no_message)
                 example_params example_merging_repo)) = Inr MERGING"
proof -
  let ?env = "example_env all_resolved leaves_no_message"
  have g: "get_repo ?env [MERGING] example_merging_repo = Inr example_merging_repo"
    by (simp add: example_env_def returns_repo_def)
  have s: "state example_merging_repo = Inr MERGING"
    by (simp add: state_def gitdir_file_exists_def example_merging_repo_def
        MERGE_HEAD_def MERGED_INDEX_def MERGE_MSG_def)
  have u: "unresolved_conflicts (read_merged_index ?env example_merging_repo) = []"
    by (simp add: example_env_def all_resolved_def)
  have c: "check_git_user ?env example_merging_repo = None"
    by (simp add: example_env_def user_configured_def)
  have m: "merge_commit_message ?env example_params
             (read_merge_context ?env example_merging_repo)
             (resolved_tree (read_merged_index ?env example_merging_repo))
             example_merging_repo = Inl UsageError"
    by (simp add: merge_commit_message_def get_commit_message_def example_params_def truthy_def
        read_gitdir_file_def example_env_def leaves_no_message_def Let_def split: option.splits)
  from complete_no_message [OF g u c m] g s u show ?thesis by simp
qed

theorem complete_merging_state_commits_witness:
  "get_repo (example_env one_unresolved keeps_draft) [MERGING] example_merging_repo
     = Inr example_merging_repo \<and>
   state example_merging_repo = Inr MERGING \<and>
   unresolved_conflicts
     (read_merged_index (example_env one_unresolved keeps_draft) example_merging_repo) \<noteq> [] \<and>
   unresolved_conflicts
     (read_merged_index (example_env all_resolved keeps_draft) example_merging_repo) = [] \<and>
   check_git_user (example_env all_resolved keeps_draft) example_merging_repo = None \<and>
   fst (complete_merging_state (example_env one_unresolved keeps_draft) example_params
          example_merging_repo) = Inl InvalidOperation \<and>
   fst (complete_merging_state (example_env all_resolved keeps_draft) example_params
          example_merging_repo) = Inr () \<and>
   state (snd (complete_merging_state (example_env all_resolved keeps_draft) example_params
                 example_merging_repo)) = Inr NORMAL"
proof -
  let ?env = "example_env one_unresolved keeps_draft"
  let ?env' = "example_env all_resolved keeps_draft"
  have g: "get_repo ?env [MERGING] example_merging_repo = Inr example_merging_repo"
    and g': "get_repo ?env' [MERGING] example_merging_repo = Inr example_merging_repo"
    by (simp_all add: example_env_def returns_repo_def)
  have s: "state example_merging_repo = Inr MERGING"
    by (simp add: state_def gitdir_file_exists_def example_merging_repo_def
        MERGE_HEAD_def MERGED_INDEX_def MERGE_MSG_def)
  have u: "unresolved_conflicts (read_merged_index ?env example_merging_repo) \<noteq> []"
    by (simp add: example_env_def one_unresolved_def)
  have u': "unresolved_conflicts (read_merged_index ?env' example_merging_repo) = []"
    by (simp add: example_env_def all_resolved_def)
  have c: "check_git_user ?env' example_merging_repo = None"
    by (simp add: example_env_def user_configured_def)
  have m: "merge_commit_message ?env' example_params
             (read_merge_context ?env' example_merging_repo)
             (resolved_tree (read_merged_index ?env' example_merging_repo))
             example_merging_repo = Inr ''Merge b''"
    by (simp add: merge_commit_message_def get_commit_message_def example_params_def truthy_def
        read_gitdir_file_def example_env_def keeps_draft_def Let_def example_merging_repo_def
        MERGE_HEAD_def MERGED_INDEX_def MERGE_MSG_def)
  from complete_merging_state_commits [OF g s u g' s u' c m, of example_params] g s u u' c
  show ?thesis by simp
qed

section \<open>Properties of the fast import\<close>

lemma walk_log_skips:
  assumes "\<forall>c \<in> set pre. at_path (no_schema_change dtc src) p c"
  shows "walk_log dtc src p (pre @ rest) m = walk_log dtc src p rest m"
  using assms
proof (induction pre)
  case Nil
  then show ?case by simp
next
  case (Cons c pre)
  then obtain d where d: "c p = Some d" and n: "no_schema_change dtc src d"
    by (auto simp: at_path_def split: option.splits)
  from n have "schema d \<noteq> src \<Longrightarrow>
      pk_updates (dtc (schema d) src) = 0 \<and> inserts (dtc (schema d) src) = 0 \<and>
      deletes (dtc (schema d) src) = 0"
    by (auto simp: no_schema_change_def pk_change_def add_or_drop_def)
  with d Cons show ?case by (simp add: Let_def)
qed

lemma walk_log_pk_change:
  assumes "at_path (pk_change dtc src) p c"
  shows "walk_log dtc src p (c # rest) m = False"
  using assms by (auto simp: at_path_def pk_change_def Let_def split: option.splits)

lemma walk_log_add_or_drop:
  assumes "at_path (add_or_drop dtc src) p c"
  shows "walk_log dtc src p (c # rest) m = True"
  using assms by (auto simp: at_path_def add_or_drop_def Let_def split: option.splits)

lemma should_compare_walks:
  assumes "no_schema_change dtc src rd"
  shows "should_compare_imported_features_against_old_features dtc w src (Some rd) =
           walk_log dtc src (path rd) (walk_commits w) (commit_missing w)"
  using assms
  by (auto simp: should_compare_imported_features_against_old_features_def Let_def
      no_schema_change_def pk_change_def add_or_drop_def)

text \<open>
  C6. The heuristic returns a boolean decided by the first version of the dataset, going
  back in history, that settles the question. Here \<open>rd\<close> is the replacing dataset and
  \<open>pre\<close> are the commits walked so far, all without a primary-key change or an added or
  dropped column against the schema being imported. Then: a commit with a primary-key
  change gives false; a commit with an added or dropped column (and no primary-key change)
  gives true; a commit in which the dataset does not exist yet gives false, and so does
  the end of the history; a missing commit gives true. The replacing dataset itself is
  judged first in the same way, and without a replacing dataset the answer is false.
\<close>

theorem should_compare_cases:
  assumes "no_schema_change dtc src rd"
    and "\<forall>c \<in> set pre. at_path (no_schema_change dtc src) (path rd) c"
    and "at_path (pk_change dtc src) (path rd) c1"
    and "at_path (add_or_drop dtc src) (path rd) c2"
    and "c3 (path rd) = None"
    and "pk_change dtc src rd1"
    and "add_or_drop dtc src rd2"
  shows "should_compare_imported_features_against_old_features dtc
           \<lparr>walk_commits = pre @ c1 # rest, commit_missing = m\<rparr> src (Some rd) = False \<and>
         should_compare_imported_features_against_old_features dtc
           \<lparr>walk_commits = pre @ c2 # rest, commit_missing = m\<rparr> src (Some rd) = True \<and>
         should_compare_imported_features_against_old_features dtc
           \<lparr>walk_commits = pre @ c3 # rest, commit_missing = m\<rparr> src (Some rd) = False \<and>
         should_compare_imported_features_against_old_features dtc
           \<lparr>walk_commits = pre, commit_missing = False\<rparr> src (Some rd) = False \<and>
         should_compare_imported_features_against_old_features dtc
           \<lparr>walk_commits = pre, commit_missing = True\<rparr> src (Some rd) = True \<and>
         should_compare_imported_features_against_old_features dtc w src (Some rd1) = False \<and>
         should_compare_imported_features_against_old_features dtc w src (Some rd2) = True \<and>
         should_compare_imported_features_against_old_features dtc w src None = False"
proof -
  have skip: "\<And>rest m. walk_log dtc src (path rd) (pre @ rest) m = walk_log dtc src (path rd) rest m"
    using assms(2) by (rule walk_log_skips)
  have "walk_log dtc src (path rd) pre False = False" "walk_log dtc src (path rd) pre True = True"
    using skip[of "[]"] by simp_all
  moreover have "walk_log dtc src (path rd) (pre @ c3 # rest) m = False"
    using assms(5) by (simp add: skip)
  moreover have "should_compare_imported_features_against_old_features dtc w src (Some rd1) = False"
    using assms(6)
    by (simp add: should_compare_imported_features_against_old_features_def pk_change_def Let_def)
  moreover have "should_compare_imported_features_against_old_features dtc w src (Some rd2) = True"
    using assms(7)
    by (simp add: should_compare_imported_features_against_old_features_def add_or_drop_def Let_def)
  moreover have "should_compare_imported_features_against_old_features dtc w src None = False"
    by (simp add: should_compare_imported_features_against_old_features_def)
  ultimately show ?thesis
    using walk_log_pk_change[OF assms(3)] walk_log_add_or_drop[OF assms(4)]
    by (simp add: should_compare_walks[OF assms(1)] skip)
qed

theorem should_compare_cases_witness:
  "no_schema_change example_counts 0 (points_with 0) \<and>
   at_path (no_schema_change example_counts 0) (path (points_with 0)) (commit_with 0) \<and>
   at_path (no_schema_change example_counts 0) (path (points_with 0)) (commit_with 3) \<and>
   at_path (pk_change example_counts 0) (path (points_with 0)) (commit_with 1) \<and>
   at_path (add_or_drop example_counts 0) (path (points_with 0)) (commit_with 2) \<and>
   commit_without (path (points_with 0)) = None \<and>
   pk_change example_counts 0 (points_with 1) \<and>
   add_or_drop example_counts 0 (points_with 2) \<and>
   should_compare_imported_features_against_old_features example_counts
     \<lparr>walk_commits = [commit_with 0, commit_with 3] @ commit_with 1 # [commit_with 2],
       commit_missing = True\<rparr> 0 (Some (points_with 0)) = False \<and>
   should_compare_imported_features_against_old_features example_counts
     \<lparr>walk_commits = [commit_with 0, commit_with 3] @ commit_with 2 # [commit_with 1],
       commit_missing = True\<rparr> 0 (Some (points_with 0)) = True \<and>
   should_compare_imported_features_against_old_features example_counts
     \<lparr>walk_commits = [commit_with 0, commit_with 3], commit_missing = True\<rparr> 0
     (Some (points_with 0)) = True"
proof -
  have a: "no_schema_change example_counts 0 (points_with 0)"
    by (simp add: no_schema_change_def pk_change_def add_or_drop_def points_with_def)
  have b: "\<forall>c \<in> set [commit_with 0, commit_with 3].
      at_path (no_schema_change example_counts 0) (path (points_with 0)) c"
    by (simp add: at_path_def no_schema_change_def pk_change_def add_or_drop_def points_with_def
        commit_with_def example_counts_def)
  have c: "at_path (pk_change example_counts 0) (path (points_with 0)) (commit_with 1)"
    by (simp add: at_path_def pk_change_def points_with_def commit_with_def example_counts_def)
  have d: "at_path (add_or_drop example_counts 0) (path (points_with 0)) (commit_with 2)"
    by (simp add: at_path_def add_or_drop_def points_with_def commit_with_def example_counts_def)
  have e: "commit_without (path (points_with 0)) = None"
    by (simp add: commit_without_def)
  have f: "pk_change example_counts 0 (points_with 1)"
    by (simp add: pk_change_def points_with_def example_counts_def)
  have g: "add_or_drop example_counts 0 (points_with 2)"
    by (simp add: add_or_drop_def points_with_def example_counts_def)
  note inst = should_compare_cases [where dtc = example_counts and src = 0
      and rd = "points_with 0" and pre = "[commit_with 0, commit_with 3]"
      and ?c1.0 = "commit_with 1" and ?c2.0 = "commit_with 2" and ?c3.0 = commit_without
      and ?rd1.0 = "points_with 1" and ?rd2.0 = "points_with 2" and m = True]
  from inst [where rest = "[commit_with 2]", OF a b c d e f g]
    inst [where rest = "[commit_with 1]", OF a b c d e f g]
    a b c d e f g
  show ?thesis by simp
qed

lemma feature_loop_appends:
  "feature_loop limit a i evs stream = stream @ feature_loop limit a i evs []"
proof (induction evs arbitrary: limit i stream)
  case Nil
  then show ?case by simp
next
  case (Cons ev evs)
  show ?case
  proof (cases ev)
    case (Id_deleted p)
    with Cons[of limit i "stream @ [D p]"] Cons[of limit i "[D p]"] show ?thesis by simp
  next
    case (Feature_blob p d)
    let ?c = "feature_command a (p, d)"
    have w: "\<And>s. (if a then copy_existing_blob_to_stream s p d else write_blob_to_stream s p d)
               = s @ [?c]"
      by (simp add: copy_existing_blob_to_stream_def write_blob_to_stream_def
          feature_command_def)
    have step: "feature_loop limit a i (ev # evs) s =
        (if limit \<noteq> None \<and> i = the limit - 1 then s @ [?c]
         else feature_loop limit a (i + 1) evs (s @ [?c]))" for s
      using Feature_blob by (simp add: w Let_def)
    show ?thesis
      by (simp add: step Cons[of _ "i + 1" "stream @ [?c]"] Cons[of _ "i + 1" "[?c]"])
  qed
qed

lemma feature_loop_stops:
  assumes "i < N"
  shows "feature_loop (Some N) a i evs [] =
           map (event_command a) (upto_nth_blob (nat (N - i)) evs)"
  using assms
proof (induction evs arbitrary: i)
  case Nil
  then obtain k where "nat (N - i) = Suc k" by (cases "nat (N - i)") auto
  then show ?case by simp
next
  case (Cons ev evs)
  from Cons.prems obtain k where k: "nat (N - i) = Suc k" by (cases "nat (N - i)") auto
  show ?case
  proof (cases ev)
    case (Id_deleted p)
    with Cons k show ?thesis
      by (simp add: feature_loop_appends[of _ _ _ _ "[D p]"])
  next
    case (Feature_blob p d)
    let ?c = "feature_command a (p, d)"
    have w: "(if a then copy_existing_blob_to_stream [] p d else write_blob_to_stream [] p d)
               = [?c]"
      by (simp add: copy_existing_blob_to_stream_def write_blob_to_stream_def
          feature_command_def)
    show ?thesis
    proof (cases "i = N - 1")
      case True
      with k have "k = 0" by simp
      with True Feature_blob k show ?thesis by (simp add: w Let_def)
    next
      case False
      with Cons.prems have lt: "i + 1 < N" by simp
      have n: "nat (N - (i + 1)) = k" using k by simp
      from Cons.IH[OF lt] False Feature_blob k n show ?thesis
        by (simp add: w Let_def feature_loop_appends[of _ _ _ _ "[?c]"])
    qed
  qed
qed

lemma yielded_upto_nth_blob:
  "yielded (upto_nth_blob n evs) = take n (yielded evs)"
  by (induction n evs rule: upto_nth_blob.induct) simp_all

lemma blob_writes_of_events:
  "filter is_blob_write (map (event_command a) evs) = map (feature_command a) (yielded evs)"
  by (induction evs rule: yielded.induct) (simp_all add: feature_command_def)

lemma write_blobs_to_stream_appends:
  "write_blobs_to_stream stream blobs = stream @ map (\<lambda>(p, d). M_inline p d) blobs"
  unfolding write_blobs_to_stream_def
  by (induction blobs arbitrary: stream) (auto simp: write_blob_to_stream_def)

lemma import_single_source_appends:
  "import_single_source limit source stream =
     stream @ clear_tree_commands source @
     feature_loop limit (feature_blobs_already_written source) 0 (feature_blob_iter source) [] @
     map (\<lambda>(p, d). M_inline p d) (meta_blobs source)"
  by (simp add: import_single_source_def Let_def write_blobs_to_stream_appends
      feature_loop_appends[of _ _ _ _ "stream @ clear_tree_commands source"])

lemma fold_import_single_source:
  "fold (import_single_source limit) sources stream =
     stream @ concat (map (\<lambda>s. import_single_source limit s []) sources)"
proof (induction sources arbitrary: stream)
  case Nil
  then show ?case by simp
next
  case (Cons s sources)
  have "import_single_source limit s stream = stream @ import_single_source limit s []"
    by (simp add: import_single_source_appends[of _ _ stream] import_single_source_appends[of _ _ "[]"])
  with Cons[of "import_single_source limit s stream"] show ?case by simp
qed

text \<open>
  C8. With \<open>limit = N\<close>, \<open>N > 0\<close>, each source is imported on its own (what is
  written for it does not depend on the other sources), and for a source whose iterator
  yields at least \<open>N\<close> feature blobs the loop stops at the \<open>N\<close>-th blob inclusive: what
  it writes is exactly what the events of the iterator up to and including its \<open>N\<close>-th
  feature blob write, nothing of any later event, and the feature blobs among it are
  exactly the first \<open>N\<close> the iterator yields.
\<close>

theorem limit_stops_at_N:
  assumes "0 < N"
    and "N \<le> int (length (yielded (feature_blob_iter source)))"
  shows "import_stream header extra_blobs replace_all from_tree (Some N) sources =
           (if \<not> replace_all \<and>
               list_ex (\<lambda>(blob_path, blob_data). blob_path \<in> set from_tree) extra_blobs
            then Inl ValueError
            else Inr (write_blobs_to_stream [Header header] extra_blobs @
                      concat (map (\<lambda>s. import_single_source (Some N) s []) sources))) \<and>
         import_single_source (Some N) source [] =
           clear_tree_commands source @
           feature_loop (Some N) (feature_blobs_already_written source) 0
             (feature_blob_iter source) [] @
           map (\<lambda>(p, d). M_inline p d) (meta_blobs source) \<and>
         feature_loop (Some N) (feature_blobs_already_written source) 0
             (feature_blob_iter source) [] =
           map (event_command (feature_blobs_already_written source))
             (upto_nth_blob (nat N) (feature_blob_iter source)) \<and>
         yielded (upto_nth_blob (nat N) (feature_blob_iter source)) =
           take (nat N) (yielded (feature_blob_iter source)) \<and>
         filter is_blob_write
           (feature_loop (Some N) (feature_blobs_already_written source) 0
              (feature_blob_iter source) []) =
           map (feature_command (feature_blobs_already_written source))
             (take (nat N) (yielded (feature_blob_iter source))) \<and>
         length (filter is_blob_write
           (feature_loop (Some N) (feature_blobs_already_written source) 0
              (feature_blob_iter source) [])) = nat N"
proof -
  have stop: "feature_loop (Some N) (feature_blobs_already_written source) 0
             (feature_blob_iter source) [] =
           map (event_command (feature_blobs_already_written source))
             (upto_nth_blob (nat N) (feature_blob_iter source))"
    using feature_loop_stops[of 0 N] assms(1) by simp
  have w: "filter is_blob_write
           (feature_loop (Some N) (feature_blobs_already_written source) 0
              (feature_blob_iter source) []) =
           map (feature_command (feature_blobs_already_written source))
             (take (nat N) (yielded (feature_blob_iter source)))"
    by (simp only: stop blob_writes_of_events yielded_upto_nth_blob)
  have "length (take (nat N) (yielded (feature_blob_iter source))) = nat N"
    using assms by simp
  with w stop show ?thesis
    by (simp add: import_stream_def fold_import_single_source yielded_upto_nth_blob
        import_single_source_appends[of _ _ "[]"])
qed

theorem limit_stops_at_N_witness:
  "(0::int) < 1 \<and> 1 \<le> int (length (yielded (feature_blob_iter example_source))) \<and>
   (0::int) < 2 \<and> 2 \<le> int (length (yielded (feature_blob_iter example_source))) \<and>
   feature_loop (Some 1) False 0 (feature_blob_iter example_source) [] =
     [M_inline ''f1'' ''d1''] \<and>
   import_stream ''h'' [] False [] (Some 2) [example_source, example_source] =
     Inr [Header ''h'',
          D ''points'', M_inline ''f1'' ''d1'', D ''f2'', M_inline ''f2'' ''d2'',
          M_inline ''schema.json'' ''{}'',
          D ''points'', M_inline ''f1'' ''d1'', D ''f2'', M_inline ''f2'' ''d2'',
          M_inline ''schema.json'' ''{}'']"
proof -
  have a: "(0::int) < 2" and a1: "(0::int) < 1" by simp_all
  have b: "2 \<le> int (length (yielded (feature_blob_iter example_source)))"
    and b1: "1 \<le> int (length (yielded (feature_blob_iter example_source)))"
    by (simp_all add: example_source_def)
  have f: "feature_blobs_already_written example_source = False"
    by (simp add: example_source_def)
  have u1: "upto_nth_blob (nat 1) (feature_blob_iter example_source) = [Feature_blob ''f1'' ''d1'']"
    and u2: "upto_nth_blob (nat 2) (feature_blob_iter example_source) =
          [Feature_blob ''f1'' ''d1'', Id_deleted ''f2'', Feature_blob ''f2'' ''d2'']"
    by (simp_all add: example_source_def eval_nat_numeral)
  from limit_stops_at_N [OF a b, of "''h''" "[]" False "[]" "[example_source, example_source]"]
    limit_stops_at_N [OF a1 b1, of "''h''" "[]" False "[]" "[]"] a b a1 b1
  show ?thesis
    unfolding f u1 u2
    by (simp add: example_source_def write_blobs_to_stream_def feature_command_def)
qed

subsection \<open>The temporary import reference\<close>

lemma git_fast_import_other_refs:
  assumes "r \<noteq> commit_ref"
  shows "references (snd (git_fast_import run commit_ref repo)) r = references repo r"
  using assms by (simp add: git_fast_import_def Let_def split: option.splits)

lemma git_fast_import_ok:
  assumes "stream_error run = None"
  shows "git_fast_import run commit_ref repo =
           (None, repo\<lparr>references := (references repo)(commit_ref \<mapsto> imported_commit run),
                       commits := commits repo @ [imported_commit run]\<rparr>)"
  using assms by (simp add: git_fast_import_def Let_def)

lemma git_fast_import_error:
  assumes "stream_error run = Some e"
  shows "fst (git_fast_import run commit_ref repo) = Some e"
  using assms by (simp add: git_fast_import_def Let_def)

lemma create_commit_refs:
  "references (snd (create_commit (Some b) a c m t ps repo)) =
     (references repo)(b \<mapsto> \<lparr>author = a, committer = c, message = m, tree = t, parent_ids = ps\<rparr>)"
  by (simp add: create_commit_def Let_def)

lemma create_commit_detached:
  "references (snd (create_commit None a c m t ps repo)) = references repo"
  "tree (fst (create_commit None a c m t ps repo)) = t"
  by (simp_all add: create_commit_def Let_def)

lemma fast_import_tables_try_other_refs:
  assumes "r \<noteq> kart_import_ref run"
  shows "references (snd (fast_import_tables_try run None allow_empty from_tree repo)) r =
           references repo r \<or>
         (fst (fast_import_tables_try run None allow_empty from_tree repo) = Inr () \<and>
          references (snd (fast_import_tables_try run None allow_empty from_tree repo)) r =
            Some (imported_commit run))"
proof (cases "generate_header_error run")
  case (Some e)
  then show ?thesis by (simp add: fast_import_tables_try_def)
next
  case None
  show ?thesis
  proof (cases "stream_error run")
    case (Some e)
    with None assms show ?thesis
      by (simp add: fast_import_tables_try_def git_fast_import_def Let_def)
  next
    case ok: None
    with None assms show ?thesis
      by (auto simp: fast_import_tables_try_def git_fast_import_ok create_commit_refs
          split: option.splits)
  qed
qed

lemma fast_import_tables_temp_ref:
  "kart_import_ref run \<notin>
     dom (references (snd (fast_import_tables run None allow_empty from_tree repo)))"
  by (simp add: fast_import_tables_def references_delete_def split: prod.splits)

lemma fast_import_tables_other_refs:
  assumes "r \<noteq> kart_import_ref run"
  shows "references (snd (fast_import_tables run None allow_empty from_tree repo)) r =
           references (snd (fast_import_tables_try run None allow_empty from_tree repo)) r"
    and "fst (fast_import_tables run None allow_empty from_tree repo) =
           fst (fast_import_tables_try run None allow_empty from_tree repo)"
  using assms by (simp_all add: fast_import_tables_def references_delete_def split: prod.splits)

lemma import_tiles_try_other_refs:
  assumes "r \<noteq> kart_import_ref run"
  shows "references (snd (import_tiles_try run opts repo)) r = references repo r \<or>
         (\<exists>c. references (snd (import_tiles_try run opts repo)) r = Some c \<and>
              references repo (kart_import_ref run) \<noteq> None \<and>
              tree c = tree (the (references repo (kart_import_ref run))))"
  using assms
  by (auto simp: import_tiles_try_def create_commit_def Let_def
      split: option.splits if_splits sum.splits prod.splits)

lemma import_tiles_temp_ref:
  assumes "kart_import_ref run \<notin> dom (references repo)"
    and "stream_error run \<noteq> None \<longrightarrow> \<not> ref_written_on_error run"
  shows "kart_import_ref run \<notin> dom (references (snd (import_tiles run opts repo)))"
proof (cases "stream_error run")
  case None
  then show ?thesis
    using assms(1)
    by (auto simp: import_tiles_def git_fast_import_ok references_delete_def Let_def
        split: option.splits prod.splits sum.splits)
next
  case (Some e)
  with assms(2) have "git_fast_import run (kart_import_ref run) repo = (Some e, repo)"
    by (simp add: git_fast_import_def Let_def)
  with assms(1) show ?thesis
    by (auto simp: import_tiles_def split: option.splits)
qed

lemma import_tiles_other_refs:
  assumes "r \<noteq> kart_import_ref run"
  shows "references (snd (import_tiles run opts repo)) r = references repo r \<or>
         (stream_error run = None \<and>
          (\<exists>c. references (snd (import_tiles run opts repo)) r = Some c \<and>
               tree c = tree (imported_commit run)))"
proof (cases "stream_error run")
  case (Some e)
  with assms show ?thesis
    by (auto simp: import_tiles_def git_fast_import_def Let_def split: option.splits)
next
  case None
  let ?w = "repo\<lparr>references := (references repo)(kart_import_ref run \<mapsto> imported_commit run),
                  commits := commits repo @ [imported_commit run]\<rparr>"
  have w: "references ?w r = references repo r"
    "references ?w (kart_import_ref run) = Some (imported_commit run)"
    using assms by simp_all
  from import_tiles_try_other_refs[OF assms, of opts ?w] w
  have t: "references (snd (import_tiles_try run opts ?w)) r = references repo r \<or>
           (\<exists>c. references (snd (import_tiles_try run opts ?w)) r = Some c \<and>
                tree c = tree (imported_commit run))"
    by auto
  have "references (snd (import_tiles run opts repo)) r = references repo r \<or>
        references (snd (import_tiles run opts repo)) r =
          references (snd (import_tiles_try run opts ?w)) r"
    using assms None
    by (auto simp: import_tiles_def git_fast_import_ok references_delete_def Let_def
        split: option.splits prod.splits sum.splits)
  with t None show ?thesis by auto
qed

text \<open>
  What holds of the temporary reference. \<open>fast_import_tables\<close> (called without a
  header) never leaves it behind, whatever happens during the run, and changes another
  reference only when it succeeds, to the imported commit. \<open>import_tiles\<close> does the same
  provided git fast-import has not written the reference when the stream block is left by
  an exception: the stream is written before the \<open>try\<close> block, so nothing is cleaned up
  on that exit.
\<close>

lemma temp_ref_cleaned_up:
  assumes "r \<noteq> kart_import_ref run"
    and "r' \<noteq> kart_import_ref run'"
    and "kart_import_ref run' \<notin> dom (references repo')"
    and "stream_error run' \<noteq> None \<longrightarrow> \<not> ref_written_on_error run'"
  shows "kart_import_ref run \<notin>
           dom (references (snd (fast_import_tables run None allow_empty from_tree repo))) \<and>
         (references (snd (fast_import_tables run None allow_empty from_tree repo)) r =
            references repo r \<or>
          (fst (fast_import_tables run None allow_empty from_tree repo) = Inr () \<and>
           references (snd (fast_import_tables run None allow_empty from_tree repo)) r =
             Some (imported_commit run))) \<and>
         kart_import_ref run' \<notin> dom (references (snd (import_tiles run' opts repo'))) \<and>
         (references (snd (import_tiles run' opts repo')) r' = references repo' r' \<or>
          (stream_error run' = None \<and>
           (\<exists>c. references (snd (import_tiles run' opts repo')) r' = Some c \<and>
                tree c = tree (imported_commit run'))))"
  using fast_import_tables_temp_ref[of run allow_empty from_tree repo]
    fast_import_tables_try_other_refs[OF assms(1), of allow_empty from_tree repo]
    import_tiles_temp_ref[OF assms(3,4), of opts]
    import_tiles_other_refs[OF assms(2), of opts repo']
  by (simp only: fast_import_tables_other_refs[OF assms(1)] simp_thms)

lemma temp_ref_cleaned_up_example:
  "''refs/heads/main'' \<noteq> kart_import_ref failing_run \<and>
   ''refs/heads/main'' \<noteq> kart_import_ref good_run \<and>
   kart_import_ref good_run \<notin> dom (references example_repo) \<and>
   stream_error failing_run = Some SubprocessError \<and> ref_written_on_error failing_run \<and>
   stream_error good_run = None \<and>
   kart_import_ref failing_run \<notin>
     dom (references (snd (fast_import_tables failing_run None False ''tree0'' example_repo))) \<and>
   fst (fast_import_tables failing_run None False ''tree0'' example_repo) = Inl SubprocessError \<and>
   references (snd (fast_import_tables failing_run None False ''tree0'' example_repo))
     ''refs/heads/main'' = references example_repo ''refs/heads/main'' \<and>
   kart_import_ref good_run \<notin>
     dom (references (snd (import_tiles good_run example_tile_import example_repo))) \<and>
   fst (import_tiles good_run example_tile_import example_repo) = Inr () \<and>
   references (snd (import_tiles good_run example_tile_import example_repo)) ''refs/heads/main''
     = Some (imported_commit good_run)"
proof -
  have a: "''refs/heads/main'' \<noteq> kart_import_ref failing_run"
    and b: "''refs/heads/main'' \<noteq> kart_import_ref good_run"
    by (simp_all add: kart_import_ref_def)
  have c: "kart_import_ref good_run \<notin> dom (references example_repo)"
    by (simp add: kart_import_ref_def example_repo_def)
  have d: "stream_error good_run \<noteq> None \<longrightarrow> \<not> ref_written_on_error good_run"
    by (simp add: good_run_def)
  have e: "stream_error failing_run = Some SubprocessError" "ref_written_on_error failing_run"
    "stream_error good_run = None"
    by (simp_all add: failing_run_def good_run_def)
  have f: "fst (fast_import_tables failing_run None False ''tree0'' example_repo)
             = Inl SubprocessError"
    by (simp add: fast_import_tables_def fast_import_tables_try_def git_fast_import_def
        failing_run_def Let_def split: prod.splits)
  have g: "import_tiles good_run example_tile_import example_repo =
      (Inr (), example_repo\<lparr>references := (references example_repo)
           (''refs/heads/main'' \<mapsto> imported_commit good_run),
         commits := commits example_repo @ [imported_commit good_run]\<rparr>)"
    by (simp add: import_tiles_def import_tiles_try_def git_fast_import_def head_commit_def
        references_delete_def good_run_def example_tile_import_def example_repo_def
        kart_import_ref_def example_commit_def Let_def fun_upd_twist)
  from temp_ref_cleaned_up [OF a b c d, of False "''tree0''" example_repo example_tile_import]
    a b c e f g
  show ?thesis by simp
qed

text \<open>
  C7. The temporary reference is to be deleted on every exit path, an interruption
  included. \<open>fast_import_tables\<close> does so. \<open>import_tiles\<close> does not when the stream
  block is left by an exception after git fast-import has written the reference: in the
  run below the user interrupts the import while git fast-import is finishing, and the
  reference \<open>refs/kart-import/1234\<close> stays in the repository; the same run of
  \<open>fast_import_tables\<close> removes it.
\<close>

theorem import_tiles_leaves_temp_ref:
  "fst (import_tiles interrupted_run example_tile_import example_repo) = Inl KeyboardInterrupt \<and>
   kart_import_ref interrupted_run \<notin> dom (references example_repo) \<and>
   kart_import_ref interrupted_run \<in>
     dom (references (snd (import_tiles interrupted_run example_tile_import example_repo))) \<and>
   fst (fast_import_tables interrupted_run None False ''tree0'' example_repo)
     = Inl KeyboardInterrupt \<and>
   kart_import_ref interrupted_run \<notin>
     dom (references (snd (fast_import_tables interrupted_run None False ''tree0''
                             example_repo)))"
proof -
  have g: "git_fast_import interrupted_run (kart_import_ref interrupted_run) example_repo =
      (Some KeyboardInterrupt,
       example_repo\<lparr>references := (references example_repo)
           (kart_import_ref interrupted_run \<mapsto> imported_commit interrupted_run),
         commits := commits example_repo @ [imported_commit interrupted_run]\<rparr>)"
    by (simp add: git_fast_import_def interrupted_run_def Let_def)
  have h: "generate_header_error interrupted_run = None"
    "head_branch interrupted_run = Some ''refs/heads/main''"
    by (simp_all add: interrupted_run_def)
  have e: "\<not> amend example_tile_import"
    by (simp add: example_tile_import_def)
  have fresh: "kart_import_ref interrupted_run \<notin> dom (references example_repo)"
    by (simp add: kart_import_ref_def example_repo_def)
  have tiles: "import_tiles interrupted_run example_tile_import example_repo =
      (Inl KeyboardInterrupt,
       example_repo\<lparr>references := (references example_repo)
           (kart_import_ref interrupted_run \<mapsto> imported_commit interrupted_run),
         commits := commits example_repo @ [imported_commit interrupted_run]\<rparr>)"
    by (simp add: import_tiles_def g h e)
  have tables: "fast_import_tables interrupted_run None False ''tree0'' example_repo =
      (Inl KeyboardInterrupt,
       references_delete (kart_import_ref interrupted_run)
         (example_repo\<lparr>references := (references example_repo)
             (kart_import_ref interrupted_run \<mapsto> imported_commit interrupted_run),
           commits := commits example_repo @ [imported_commit interrupted_run]\<rparr>))"
    by (simp add: fast_import_tables_def fast_import_tables_try_def g h)
  show ?thesis
    unfolding tiles tables using fresh by (simp add: references_delete_def)
qed

section \<open>Properties of key filters\<close>

lemma replace_absent:
  assumes "ch \<notin> set s"
  shows "replace ch new_text s = s"
  using assms unfolding replace_def by (induction s) auto

lemma escape_glob_plain:
  assumes "CHR ''?'' \<notin> set k" and "CHR ''['' \<notin> set k" and "CHR '']'' \<notin> set k"
  shows "escape_glob k = k"
  using assms by (simp add: escape_glob_def replace_absent)

lemma translate_plain:
  assumes "CHR ''?'' \<notin> set k" and "CHR ''['' \<notin> set k"
  shows "translate Top k = map (\<lambda>c. if c = CHR ''*'' then Star else Literal c) k"
  using assms by (induction k) auto

text \<open>
  For a key without \<open>?\<close>, \<open>[\<close> and \<open>]\<close> the stored pattern is the key itself and
  matches as the glob read with only \<open>*\<close> special.
\<close>

lemma fnmatch_star_only:
  assumes "CHR ''?'' \<notin> set k" and "CHR ''['' \<notin> set k" and "CHR '']'' \<notin> set k"
  shows "fnmatch name (escape_glob k) = star_only_match name k"
  using assms by (simp add: fnmatch_def star_only_match_def escape_glob_plain translate_plain)


lemma escape_glob_example: "escape_glob ''a[*'' = ''a[[[]]*''"
  by (simp add: escape_glob_def replace_def)

lemma translate_example:
  "translate Top ''a[[[]]*'' = [Literal CHR ''a'', Char_class ''[['', Literal CHR '']'', Star]"
  by (simp add: class_closes_def)

text \<open>
  C9. A dataset glob is to treat \<open>?\<close>, \<open>[\<close> and \<open>]\<close> as literal characters.
  The escaping loop of \<open>__setitem__\<close> wraps \<open>[\<close> in brackets and then wraps the
  \<open>]\<close> it has just added, so the key \<open>a[*\<close> is stored as the pattern
  \<open>a[[[]]*\<close>, which asks for \<open>a[]\<close> at the start: the filter does not contain the
  dataset \<open>a[b\<close>, which the glob read with only \<open>*\<close> special matches.
\<close>

theorem glob_bracket_not_literal:
  "map fst (dataset_glob_filters
     (RepoKeyFilter_setitem ''a[*'' DatasetKeyFilter_MATCH_ALL RepoKeyFilter_new)) = [''a[[[]]*''] \<and>
   \<not> RepoKeyFilter_contains
        (RepoKeyFilter_setitem ''a[*'' DatasetKeyFilter_MATCH_ALL RepoKeyFilter_new) ''a[b'' \<and>
   star_only_match ''a[b'' ''a[*''"
proof -
  have f: "RepoKeyFilter_setitem ''a[*'' DatasetKeyFilter_MATCH_ALL RepoKeyFilter_new =
      \<lparr>data = [(''a[[[]]*'', DatasetKeyFilter_MATCH_ALL)], match_all = False,
        dataset_glob_filters = [(''a[[[]]*'', DatasetKeyFilter_MATCH_ALL)]\<rparr>"
    by (simp add: RepoKeyFilter_setitem_def RepoKeyFilter_new_def KeyFilterDict_setitem_def
        escape_glob_example)
  have m: "\<not> fnmatch ''a[b'' ''a[[[]]*''"
    unfolding fnmatch_def translate_example by (simp add: class_matches_def)
  have s: "star_only_match ''a[b'' ''a[*''"
    by (simp add: star_only_match_def)
  from m s show ?thesis
    unfolding f
    by (simp add: RepoKeyFilter_contains_def KeyFilterDict_contains_def
        dataset_glob_pattern_matching_key_def)
qed

lemma UserStringKeyFilter_apply_match_all:
  "UserStringKeyFilter_apply op UserStringKeyFilter_MATCH_ALL = UserStringKeyFilter_MATCH_ALL"
  by (cases op)
     (simp_all add: UserStringKeyFilter_add_def UserStringKeyFilter_recursive_set_def
        UserStringKeyFilter_MATCH_ALL_def)

lemma fold_UserStringKeyFilter_apply:
  "fold UserStringKeyFilter_apply ops UserStringKeyFilter_MATCH_ALL = UserStringKeyFilter_MATCH_ALL"
  by (induction ops) (simp_all add: UserStringKeyFilter_apply_match_all)

lemma fold_KeyFilterDict_setitem:
  "fold (\<lambda>(k, v). KeyFilterDict_setitem k v) kvs DatasetKeyFilter_MATCH_ALL =
     DatasetKeyFilter_MATCH_ALL"
  by (induction kvs)
     (auto simp: KeyFilterDict_setitem_def DatasetKeyFilter_MATCH_ALL_def)

lemma fold_RepoKeyFilter_setitem:
  "fold (\<lambda>(k, v). RepoKeyFilter_setitem k v) kvs RepoKeyFilter_MATCH_ALL =
     RepoKeyFilter_MATCH_ALL"
  by (induction kvs)
     (auto simp: RepoKeyFilter_setitem_def RepoKeyFilter_MATCH_ALL_def)

text \<open>
  C10. The three \<open>MATCH_ALL\<close> filters contain every key; a lookup in a match-all
  \<open>DatasetKeyFilter\<close> or \<open>RepoKeyFilter\<close> gives the child that matches all; and any run
  of \<open>add\<close>, \<open>recursive_set\<close> or item assignments leaves each of them as it was:
  matching all, with no entries.
\<close>

theorem match_all_filters_stay:
  "UserStringKeyFilter_contains UserStringKeyFilter_MATCH_ALL key1 \<and>
   UserStringKeyFilter_recursive_get UserStringKeyFilter_MATCH_ALL [key1] = Inr True \<and>
   fold UserStringKeyFilter_apply ops UserStringKeyFilter_MATCH_ALL =
     UserStringKeyFilter_MATCH_ALL \<and>
   KeyFilterDict_contains DatasetKeyFilter_MATCH_ALL key2 \<and>
   KeyFilterDict_getitem DatasetKeyFilter_child_that_matches_all DatasetKeyFilter_MATCH_ALL key2
     = Inr UserStringKeyFilter_MATCH_ALL \<and>
   KeyFilterDict_get DatasetKeyFilter_child_that_matches_all DatasetKeyFilter_MATCH_ALL key2
     default2 = Some UserStringKeyFilter_MATCH_ALL \<and>
   fold (\<lambda>(k, v). KeyFilterDict_setitem k v) kvs2 DatasetKeyFilter_MATCH_ALL =
     DatasetKeyFilter_MATCH_ALL \<and>
   RepoKeyFilter_contains RepoKeyFilter_MATCH_ALL key3 \<and>
   RepoKeyFilter_getitem RepoKeyFilter_child_that_matches_all RepoKeyFilter_MATCH_ALL key3
     = Inr DatasetKeyFilter_MATCH_ALL \<and>
   RepoKeyFilter_get RepoKeyFilter_child_that_matches_all RepoKeyFilter_MATCH_ALL key3 default3
     = Some DatasetKeyFilter_MATCH_ALL \<and>
   fold (\<lambda>(k, v). RepoKeyFilter_setitem k v) kvs3 RepoKeyFilter_MATCH_ALL =
     RepoKeyFilter_MATCH_ALL \<and>
   match_all_keys UserStringKeyFilter_MATCH_ALL \<and> elements UserStringKeyFilter_MATCH_ALL = {} \<and>
   match_all DatasetKeyFilter_MATCH_ALL \<and> data DatasetKeyFilter_MATCH_ALL = [] \<and>
   match_all RepoKeyFilter_MATCH_ALL \<and> data RepoKeyFilter_MATCH_ALL = [] \<and>
   dataset_glob_filters RepoKeyFilter_MATCH_ALL = []"
proof -
  have us: "UserStringKeyFilter_contains UserStringKeyFilter_MATCH_ALL key1"
    "UserStringKeyFilter_recursive_get UserStringKeyFilter_MATCH_ALL [key1] = Inr True"
    by (simp_all add: UserStringKeyFilter_contains_def UserStringKeyFilter_recursive_get_def
        UserStringKeyFilter_MATCH_ALL_def)
  have ds: "KeyFilterDict_contains DatasetKeyFilter_MATCH_ALL key2"
    "KeyFilterDict_getitem DatasetKeyFilter_child_that_matches_all DatasetKeyFilter_MATCH_ALL key2
       = Inr UserStringKeyFilter_MATCH_ALL"
    "KeyFilterDict_get DatasetKeyFilter_child_that_matches_all DatasetKeyFilter_MATCH_ALL key2
       default2 = Some UserStringKeyFilter_MATCH_ALL"
    by (simp_all add: KeyFilterDict_contains_def KeyFilterDict_getitem_def KeyFilterDict_get_def
        DatasetKeyFilter_MATCH_ALL_def DatasetKeyFilter_child_that_matches_all_def
        UserStringKeyFilter_MATCH_ALL_def)
  have rp: "RepoKeyFilter_contains RepoKeyFilter_MATCH_ALL key3"
    "RepoKeyFilter_getitem RepoKeyFilter_child_that_matches_all RepoKeyFilter_MATCH_ALL key3
       = Inr DatasetKeyFilter_MATCH_ALL"
    "RepoKeyFilter_get RepoKeyFilter_child_that_matches_all RepoKeyFilter_MATCH_ALL key3 default3
       = Some DatasetKeyFilter_MATCH_ALL"
    by (simp_all add: RepoKeyFilter_contains_def KeyFilterDict_contains_def
        RepoKeyFilter_getitem_def RepoKeyFilter_get_def RepoKeyFilter_MATCH_ALL_def
        RepoKeyFilter_child_that_matches_all_def DatasetKeyFilter_MATCH_ALL_def)
  have shape: "match_all_keys UserStringKeyFilter_MATCH_ALL"
    "elements UserStringKeyFilter_MATCH_ALL = {}"
    "match_all DatasetKeyFilter_MATCH_ALL" "data DatasetKeyFilter_MATCH_ALL = []"
    "match_all RepoKeyFilter_MATCH_ALL" "data RepoKeyFilter_MATCH_ALL = []"
    "dataset_glob_filters RepoKeyFilter_MATCH_ALL = []"
    by (simp_all add: UserStringKeyFilter_MATCH_ALL_def DatasetKeyFilter_MATCH_ALL_def
        RepoKeyFilter_MATCH_ALL_def)
  from us ds rp shape show ?thesis
    by (simp only: fold_UserStringKeyFilter_apply fold_KeyFilterDict_setitem
        fold_RepoKeyFilter_setitem simp_thms)
qed

end
